theory Spec2Isabelle
  imports Complex_Main "HOL-Library.Word"
begin

section \<open>Python numbers and strings\<close>

text \<open>
  The program is \<^verbatim>\<open>lyric_generator.py\<close>. Python's unbounded integers are \<open>int\<close>
  (or \<open>nat\<close> where the source can only produce a non-negative value). A Python float is
  the rational number it stands for, and the arithmetic of the renderer and of the export
  thread is that of doubles: each operation rounds its exact result to the nearest double
  (\<open>fl\<close>, below). Times are the exception: a parsed timestamp and the time \<open>i / 30\<close> of a frame
  are kept as the decimal numbers they stand for. The program only compares them, and on them
  the order of the doubles is the order of these numbers: two different ones are at least a
  third of a millisecond apart, far more than the resolution of a double below 6040, and
  equal timestamps come from equal fields.

  A Python string is a \<open>string\<close>; a character of the model is a code point below 256. On
  these, the class \<^verbatim>\<open>\d\<close> of \<^verbatim>\<open>re\<close> is exactly \<^verbatim>\<open>0\<close>..\<^verbatim>\<open>9\<close>, and
  \<^verbatim>\<open>str.strip()\<close> removes the code points 9..13, 28..32, 133 and 160.
\<close>

definition py_int :: "rat \<Rightarrow> int" where
  \<comment> \<open>\<^verbatim>\<open>int(x)\<close> on a number: truncation towards zero\<close>
  "py_int x = (if 0 \<le> x then \<lfloor>x\<rfloor> else \<lceil>x\<rceil>)"

subsection \<open>Doubles\<close>

text \<open>
  \<open>fl x\<close> is the double nearest to \<open>x\<close>, ties to the even significand: 53 bits at the binary
  exponent of \<open>x\<close>, and the fixed step \<open>2 ^ -1074\<close> below the normal range. The model has no
  infinity and no NaN: a result beyond the largest double is outside it. \<open>bit_length n\<close> is
  the number of binary digits of \<open>n\<close>, and \<open>ilog2 x\<close> the exponent of the largest power of
  two that is at most \<open>x\<close>, for a positive \<open>x\<close>.
\<close>

fun bit_length :: "nat \<Rightarrow> nat" where
  "bit_length n = (if n = 0 then 0 else Suc (bit_length (n div 2)))"

declare bit_length.simps [simp del]

definition pow2 :: "int \<Rightarrow> rat" where
  "pow2 e = (if 0 \<le> e then 2 ^ nat e else 1 / 2 ^ nat (- e))"

definition ilog2 :: "rat \<Rightarrow> int" where
  "ilog2 x =
     (if 1 \<le> x then int (bit_length (nat \<lfloor>x\<rfloor>)) - 1
      else - int (bit_length (nat (\<lceil>1 / x\<rceil> - 1))))"

definition round_half_even :: "rat \<Rightarrow> int" where
  "round_half_even y =
     (let f = \<lfloor>y\<rfloor>; r = y - of_int f
      in if r < 1 / 2 then f
         else if 1 / 2 < r then f + 1
         else if even f then f else f + 1)"

definition fl :: "rat \<Rightarrow> rat" where
  "fl x =
     (if x = 0 then 0
      else let e = max (ilog2 \<bar>x\<bar> - 52) (- 1074);
               u = pow2 e
           in of_int (round_half_even (x / u)) * u)"

definition to_float :: "int \<Rightarrow> rat" where
  \<comment> \<open>an integer operand of a float operation\<close>
  "to_float n = fl (of_int n)"

definition fadd :: "rat \<Rightarrow> rat \<Rightarrow> rat" where
  "fadd a b = fl (a + b)"

definition fsub :: "rat \<Rightarrow> rat \<Rightarrow> rat" where
  "fsub a b = fl (a - b)"

definition fmul :: "rat \<Rightarrow> rat \<Rightarrow> rat" where
  "fmul a b = fl (a * b)"

text \<open>
  A number that may be an integer or a float, as the duration of an export is: the product
  of two integers is exact, a product with a float is a double.
\<close>

datatype number = PyInt int | PyFloat rat

fun num_value :: "number \<Rightarrow> rat" where
  "num_value (PyInt a) = of_int a"
| "num_value (PyFloat x) = x"

fun num_float :: "number \<Rightarrow> rat" where
  "num_float (PyInt a) = to_float a"
| "num_float (PyFloat x) = x"

fun num_mul :: "number \<Rightarrow> number \<Rightarrow> number" where
  "num_mul (PyInt a) (PyInt b) = PyInt (a * b)"
| "num_mul a b = PyFloat (fmul (num_float a) (num_float b))"

fun num_int :: "number \<Rightarrow> int" where
  \<comment> \<open>\<^verbatim>\<open>int(x)\<close>\<close>
  "num_int (PyInt a) = a"
| "num_int (PyFloat x) = py_int x"

definition is_digit :: "char \<Rightarrow> bool" where
  "is_digit c = (48 \<le> (of_char c :: nat) \<and> (of_char c :: nat) \<le> 57)"

definition digit_val :: "char \<Rightarrow> nat" where
  "digit_val c = (of_char c :: nat) - 48"

definition int_of_str :: "string \<Rightarrow> nat" where
  \<comment> \<open>\<^verbatim>\<open>int(s)\<close> on a string of decimal digits\<close>
  "int_of_str s = foldl (\<lambda>a c. 10 * a + digit_val c) 0 s"

definition py_isspace :: "char \<Rightarrow> bool" where
  "py_isspace c =
     (let n = (of_char c :: nat)
      in (9 \<le> n \<and> n \<le> 13) \<or> (28 \<le> n \<and> n \<le> 32) \<or> n = 133 \<or> n = 160)"

definition strip :: "string \<Rightarrow> string" where
  "strip s = rev (dropWhile py_isspace (rev (dropWhile py_isspace s)))"

section \<open>LrcParser\<close>

record lyric =
  lyric_time :: rat
  lyric_text :: string

text \<open>
  The compiled pattern \<^verbatim>\<open>\[(\d{2}):(\d{2})\.(\d{2,3})\]\<close>, matched at the head of
  a string: the three groups and the rest of the string after the match. The greedy
  \<^verbatim>\<open>\d{2,3}\<close> takes a third digit when there is one; \<^verbatim>\<open>]\<close> must follow.
\<close>

fun match_tag :: "string \<Rightarrow> (string \<times> string \<times> string \<times> string) option" where
  "match_tag (b # m1 # m2 # c # s1 # s2 # d # f1 # f2 # r) =
     (if b = CHR ''['' \<and> is_digit m1 \<and> is_digit m2 \<and> c = CHR '':'' \<and>
         is_digit s1 \<and> is_digit s2 \<and> d = CHR ''.'' \<and> is_digit f1 \<and> is_digit f2
      then (case r of
              [] \<Rightarrow> None
            | f3 # r' \<Rightarrow>
                if is_digit f3
                then (case r' of
                        [] \<Rightarrow> None
                      | e # r'' \<Rightarrow>
                          if e = CHR '']'' then Some ([m1, m2], [s1, s2], [f1, f2, f3], r'')
                          else None)
                else if f3 = CHR '']'' then Some ([m1, m2], [s1, s2], [f1, f2], r')
                else None)
      else None)"
| "match_tag _ = None"

fun search :: "string \<Rightarrow> (string \<times> string \<times> string) option" where
  \<comment> \<open>\<^verbatim>\<open>time_pattern.search(line)\<close>: the leftmost match, its groups\<close>
  "search [] = None"
| "search (c # cs) =
     (case match_tag (c # cs) of
        Some (mm, ss, ms, r) \<Rightarrow> Some (mm, ss, ms)
      | None \<Rightarrow> search cs)"

lemma match_tag_shorter: "match_tag s = Some (mm, ss, ms, r) \<Longrightarrow> length r < length s"
  by (induction s rule: match_tag.induct) (auto split: if_splits list.splits)

function sub_tags :: "string \<Rightarrow> string" where
  \<comment> \<open>\<^verbatim>\<open>time_pattern.sub('', line)\<close>: every match removed, left to right\<close>
  "sub_tags [] = []"
| "sub_tags (c # cs) =
     (case match_tag (c # cs) of
        Some (mm, ss, ms, r) \<Rightarrow> sub_tags r
      | None \<Rightarrow> c # sub_tags cs)"
  by pat_completeness auto
termination
  by (relation "measure length") (auto dest: match_tag_shorter)

definition total_seconds :: "string \<Rightarrow> string \<Rightarrow> string \<Rightarrow> rat" where
  "total_seconds mm ss ms =
     (let ms_val = int_of_str ms;
          ms_val = (if length ms = 2 then ms_val * 10 else ms_val)
      in of_nat (int_of_str mm * 60 + int_of_str ss) + of_nat ms_val / 1000)"

fun parse_loop :: "string list \<Rightarrow> lyric list \<Rightarrow> lyric list" where
  \<comment> \<open>the \<^verbatim>\<open>for line in lines\<close> loop, \<open>lyrics\<close> being the list it appends to\<close>
  "parse_loop [] lyrics = lyrics"
| "parse_loop (line # lines) lyrics =
     (let line = strip line
      in case search line of
           Some (mm, ss, ms) \<Rightarrow>
             (let text = strip (sub_tags line)
              in if text \<noteq> []
                 then parse_loop lines
                        (lyrics @ [\<lparr>lyric_time = total_seconds mm ss ms, lyric_text = text\<rparr>])
                 else parse_loop lines lyrics)
         | None \<Rightarrow> parse_loop lines lyrics)"

definition parse_line :: "string \<Rightarrow> lyric list" where
  "parse_line line = parse_loop [line] []"

text \<open>
  The file system the parser reads. \<^verbatim>\<open>os.path.exists\<close> holds of every node;
  \<^verbatim>\<open>open\<close> succeeds on a regular file that can be read and raises on the others. The
  content of a file is its text as decoded (\<^verbatim>\<open>errors='ignore'\<close> never fails).
  \<^verbatim>\<open>readlines\<close> is in universal-newlines mode: \<^verbatim>\<open>\r\n\<close> and \<^verbatim>\<open>\r\<close>
  end a line as \<^verbatim>\<open>\n\<close> does, and each line keeps its \<^verbatim>\<open>\n\<close>.
\<close>

datatype node = RegularFile string | Directory | Unreadable

datatype os_error = IsADirectoryError | PermissionError

type_synonym filesystem = "string \<Rightarrow> node option"

fun readlines_from :: "string \<Rightarrow> string \<Rightarrow> string list" where
  \<comment> \<open>first argument: the current line so far, reversed\<close>
  "readlines_from cur [] = (if cur = [] then [] else [rev cur])"
| "readlines_from cur (c # cs) =
     (if c = CHR 0x0D
      then (case cs of
              [] \<Rightarrow> [rev (CHR 0x0A # cur)]
            | c' # cs' \<Rightarrow>
                if c' = CHR 0x0A then rev (CHR 0x0A # cur) # readlines_from [] cs'
                else rev (CHR 0x0A # cur) # readlines_from [] cs)
      else if c = CHR 0x0A then rev (CHR 0x0A # cur) # readlines_from [] cs
      else readlines_from (c # cur) cs)"

definition readlines :: "string \<Rightarrow> string list" where
  "readlines content = readlines_from [] content"

definition parse :: "filesystem \<Rightarrow> string \<Rightarrow> os_error + lyric list" where
  "parse fs file_path =
     (if file_path = [] \<or> fs file_path = None then Inr []
      else case fs file_path of
             Some Directory \<Rightarrow> Inl IsADirectoryError
           | Some Unreadable \<Rightarrow> Inl PermissionError
           | Some (RegularFile content) \<Rightarrow>
               Inr (sort_key lyric_time (parse_loop (readlines content) []))
           | None \<Rightarrow> Inr [])"

section \<open>FrameRenderer: the active line\<close>

fun scan_lines :: "rat \<Rightarrow> lyric list \<Rightarrow> nat \<Rightarrow> int \<Rightarrow> int" where
  \<comment> \<open>the loop of \<^verbatim>\<open>get_current_line_index\<close> from position \<open>i\<close> on, \<open>idx\<close> so far\<close>
  "scan_lines current_time [] i idx = idx"
| "scan_lines current_time (line # rest) i idx =
     (if current_time \<ge> lyric_time line then scan_lines current_time rest (Suc i) (int i)
      else idx)"

definition get_current_line_index :: "lyric list \<Rightarrow> rat \<Rightarrow> int" where
  "get_current_line_index lyrics current_time = scan_lines current_time lyrics 0 (- 1)"

section \<open>Style parameters\<close>

text \<open>
  The dictionary \<^verbatim>\<open>params\<close>, one field per key. Sizes and counts come from integer
  spin boxes, the decay coefficients from floating-point ones; \<^verbatim>\<open>align\<close> stays a
  string, since the code compares it with \<^verbatim>\<open>'center'\<close>, \<^verbatim>\<open>'left'\<close> and
  \<^verbatim>\<open>'right'\<close> and treats any other value as the remaining case. The duration is a
  number of seconds: the window enters it in whole seconds, and the export thread takes
  any number, which is why it converts \<^verbatim>\<open>duration * fps\<close> with \<^verbatim>\<open>int\<close>. The
  coefficients are floats, each the double it holds.
\<close>

type_synonym rgb = "int \<times> int \<times> int"

type_synonym rgba = "int \<times> int \<times> int \<times> int"

record shadow =
  shadow_enabled :: bool
  shadow_color :: rgb
  shadow_x :: int
  shadow_y :: int

record stroke =
  stroke_enabled :: bool
  stroke_color :: rgb
  stroke_width :: int

record params =
  p_width :: int
  p_height :: int
  p_duration :: number
  p_bitrate :: string
  p_visible_lines :: int
  p_line_spacing :: int
  p_align :: string
  p_font_path :: string
  p_font_size :: int
  p_font_color :: rgb
  p_scale_decay :: rat
  p_fade_decay :: rat
  p_blur_base :: rat
  p_blur_inc :: rat
  p_meta_title :: string
  p_meta_artist :: string
  p_meta_album :: string
  p_shadow :: shadow
  p_stroke :: stroke

section \<open>Images\<close>

text \<open>
  An RGBA image of the imaging library: its size and its pixels, row by row, four bytes
  each. The library itself is not part of the program. What its drawing operations put into
  a pixel is a parameter of the model (the record \<open>pil\<close>); that they work in place, on
  an image whose size they keep, and that \<^verbatim>\<open>resize\<close> returns an image of the size it
  is given, is written into the operations below.
\<close>

type_synonym byte = "8 word"

type_synonym pixel = "byte \<times> byte \<times> byte \<times> byte"

record image =
  im_width :: nat
  im_height :: nat
  im_pixels :: "pixel list"

datatype font = TrueType string int | DefaultFont

datatype render_error = ValueError | TypeError

record pil =
  truetype_loads :: "string \<Rightarrow> int \<Rightarrow> bool"
  textlength :: "string \<Rightarrow> font \<Rightarrow> rat"
  textbbox :: "string \<Rightarrow> font \<Rightarrow> rat \<times> rat \<times> rat \<times> rat"
  text_pixel :: "rat \<times> rat \<Rightarrow> string \<Rightarrow> font \<Rightarrow> rgba \<Rightarrow> int \<Rightarrow> rgba option \<Rightarrow>
                 nat \<times> nat \<Rightarrow> pixel \<Rightarrow> pixel"
  resize_pixel :: "image \<Rightarrow> nat \<times> nat \<Rightarrow> nat \<times> nat \<Rightarrow> pixel"
  blur_pixel :: "rat \<Rightarrow> image \<Rightarrow> nat \<times> nat \<Rightarrow> pixel"
  paste_pixel :: "pixel \<Rightarrow> pixel \<Rightarrow> pixel"

definition transparent :: pixel where
  "transparent = (0, 0, 0, 0)"

definition image_new :: "int \<Rightarrow> int \<Rightarrow> render_error + image" where
  \<comment> \<open>\<^verbatim>\<open>Image.new('RGBA', (w, h), (0,0,0,0))\<close>; a negative size raises\<close>
  "image_new w h =
     (if w < 0 \<or> h < 0 then Inl ValueError
      else Inr \<lparr>im_width = nat w, im_height = nat h,
                im_pixels = replicate (nat w * nat h) transparent\<rparr>)"

definition coords :: "image \<Rightarrow> nat \<Rightarrow> nat \<times> nat" where
  \<comment> \<open>column and row of the \<open>k\<close>-th pixel\<close>
  "coords img k = (k mod im_width img, k div im_width img)"

definition pixel_at :: "image \<Rightarrow> nat \<times> nat \<Rightarrow> pixel" where
  "pixel_at img xy = im_pixels img ! (snd xy * im_width img + fst xy)"

definition draw_text ::
  "pil \<Rightarrow> image \<Rightarrow> rat \<times> rat \<Rightarrow> string \<Rightarrow> font \<Rightarrow> rgba \<Rightarrow> int \<Rightarrow> rgba option \<Rightarrow> image" where
  \<comment> \<open>\<^verbatim>\<open>ImageDraw.Draw(img).text(xy, text, font, fill, stroke_width, stroke_fill)\<close>\<close>
  "draw_text lib img xy text font fill stroke_w stroke_fill =
     img\<lparr>im_pixels :=
       map (\<lambda>k. text_pixel lib xy text font fill stroke_w stroke_fill (coords img k)
                  (im_pixels img ! k))
         [0..<length (im_pixels img)]\<rparr>"

definition resize :: "pil \<Rightarrow> image \<Rightarrow> nat \<times> nat \<Rightarrow> image" where
  \<comment> \<open>\<^verbatim>\<open>img.resize((w, h), resample=LANCZOS)\<close>\<close>
  "resize lib img wh =
     (let new = \<lparr>im_width = fst wh, im_height = snd wh, im_pixels = []\<rparr>
      in new\<lparr>im_pixels :=
           map (\<lambda>k. resize_pixel lib img wh (coords new k)) [0..<fst wh * snd wh]\<rparr>)"

definition gaussian_blur :: "pil \<Rightarrow> rat \<Rightarrow> image \<Rightarrow> image" where
  \<comment> \<open>\<^verbatim>\<open>img.filter(ImageFilter.GaussianBlur(radius))\<close>\<close>
  "gaussian_blur lib radius img =
     img\<lparr>im_pixels :=
       map (\<lambda>k. blur_pixel lib radius img (coords img k)) [0..<length (im_pixels img)]\<rparr>"

definition paste :: "pil \<Rightarrow> image \<Rightarrow> image \<Rightarrow> int \<times> int \<Rightarrow> image" where
  \<comment> \<open>\<^verbatim>\<open>img.paste(src, (dx, dy), src)\<close>: \<open>src\<close> is also the mask\<close>
  "paste lib img src box =
     img\<lparr>im_pixels :=
       map (\<lambda>k. let (x, y) = coords img k;
                     sx = int x - fst box;
                     sy = int y - snd box
                 in if 0 \<le> sx \<and> sx < int (im_width src) \<and> 0 \<le> sy \<and> sy < int (im_height src)
                    then paste_pixel lib (pixel_at src (nat sx, nat sy)) (im_pixels img ! k)
                    else im_pixels img ! k)
         [0..<length (im_pixels img)]\<rparr>"

definition tobytes :: "image \<Rightarrow> byte list" where
  "tobytes img = concat (map (\<lambda>(r, g, b, a). [r, g, b, a]) (im_pixels img))"

section \<open>FrameRenderer\<close>

record renderer =
  r_p :: params
  r_lyrics :: "lyric list"
  lyric_font :: font
  meta_title_font :: font
  meta_info_font :: font

definition FrameRenderer :: "pil \<Rightarrow> params \<Rightarrow> lyric list \<Rightarrow> renderer" where
  \<comment> \<open>\<^verbatim>\<open>__init__\<close>: when one of the three fonts fails to load, all three are the default\<close>
  "FrameRenderer lib p lyrics =
     (let s1 = p_font_size p;
          s2 = py_int (fmul (to_float (p_font_size p)) (3 / 2));
          s3 = py_int (fmul (to_float (p_font_size p)) (fl (4 / 5)))
      in if truetype_loads lib (p_font_path p) s1 \<and> truetype_loads lib (p_font_path p) s2 \<and>
            truetype_loads lib (p_font_path p) s3
         then \<lparr>r_p = p, r_lyrics = lyrics, lyric_font = TrueType (p_font_path p) s1,
               meta_title_font = TrueType (p_font_path p) s2,
               meta_info_font = TrueType (p_font_path p) s3\<rparr>
         else \<lparr>r_p = p, r_lyrics = lyrics, lyric_font = DefaultFont,
               meta_title_font = DefaultFont, meta_info_font = DefaultFont\<rparr>)"

definition draw_text_with_effects ::
  "pil \<Rightarrow> string \<Rightarrow> int \<Rightarrow> int \<Rightarrow> font \<Rightarrow> rgb \<Rightarrow> rat \<Rightarrow> rat \<Rightarrow> rat \<Rightarrow> string \<Rightarrow> shadow \<Rightarrow> stroke \<Rightarrow>
   render_error + (image option \<times> int \<times> int)" where
  \<comment> \<open>the bare \<^verbatim>\<open>return\<close> on an empty layer gives the caller \<^verbatim>\<open>None\<close> to unpack:
      a \<^verbatim>\<open>TypeError\<close>\<close>
  "draw_text_with_effects lib text x y font color alpha scale blur_radius align shadow stroke =
     (if alpha \<le> 5 then Inr (None, 0, 0)
      else
        let (r, g, b) = color;
            fill_color = (r, g, b, py_int alpha);
            (b0, b1, b2, b3) = textbbox lib text font;
            w = fsub b2 b0;
            h = fsub b3 b1;
            padding = 20;
            temp_w = py_int (fadd w (padding * 2));
            temp_h = py_int (fadd h (padding * 2))
        in if temp_w \<le> 0 \<or> temp_h \<le> 0 then Inl TypeError
           else
             case image_new temp_w temp_h of
               Inl e \<Rightarrow> Inl e
             | Inr txt_img \<Rightarrow>
                 let lx = padding;
                     ly = padding;
                     txt_img =
                       (if shadow_enabled shadow
                        then let (sr, sg, sb) = shadow_color shadow;
                                 s_alpha = py_int (fmul alpha (fl (3 / 5)));
                                 s_fill = (sr, sg, sb, s_alpha)
                             in draw_text lib txt_img
                                  (lx + of_int (shadow_x shadow), ly + of_int (shadow_y shadow))
                                  text font s_fill 0 None
                        else txt_img);
                     stroke_w = (if stroke_enabled stroke then stroke_width stroke else 0);
                     stroke_fill =
                       (if stroke_enabled stroke
                        then let (cr, cg, cb) = stroke_color stroke in Some (cr, cg, cb, py_int alpha)
                        else None);
                     txt_img = draw_text lib txt_img (lx, ly) text font fill_color stroke_w stroke_fill;
                     txt_img =
                       (if scale \<noteq> 1
                        then let new_w = py_int (fmul (to_float temp_w) scale);
                                 new_h = py_int (fmul (to_float temp_h) scale)
                             in if new_w > 0 \<and> new_h > 0
                                then resize lib txt_img (nat new_w, nat new_h)
                                else txt_img
                        else txt_img);
                     txt_img =
                       (if blur_radius > 0 then gaussian_blur lib blur_radius txt_img else txt_img);
                     final_w = int (im_width txt_img);
                     final_h = int (im_height txt_img);
                     dest_x =
                       (if align = ''center'' then x - final_w div 2
                        else if align = ''right'' then x - final_w
                        else x);
                     dest_y = y - final_h div 2
                 in Inr (Some txt_img, dest_x, dest_y))"

definition header_x :: "params \<Rightarrow> int" where
  "header_x p =
     (if p_align p = ''center'' then p_width p div 2
      else (if p_align p = ''left'' then 50 else p_width p - 50))"

definition center_y :: "params \<Rightarrow> int" where
  "center_y p =
     (let margin_top = 40;
          scroll_area_top = margin_top + p_font_size p * 4;
          scroll_area_height = p_height p - scroll_area_top - 50
      in scroll_area_top + scroll_area_height div 2)"

definition draw_header :: "pil \<Rightarrow> renderer \<Rightarrow> image \<Rightarrow> image" where
  \<comment> \<open>step 1 of \<^verbatim>\<open>render\<close>: title, then artist and album; \<^verbatim>\<open>w // 2\<close> on a float
      is the floor of the half\<close>
  "draw_header lib R img =
     (let p = r_p R;
          margin_top = 40;
          (cr, cg, cb) = p_font_color p;
          title_w = textlength lib (p_meta_title p) (meta_title_font R);
          tx = (if p_align p = ''center''
                then fsub (to_float (header_x p)) (of_int \<lfloor>title_w / 2\<rfloor>)
                else (if p_align p = ''left'' then of_int (header_x p)
                      else fsub (to_float (header_x p)) title_w));
          img = draw_text lib img (tx, margin_top) (p_meta_title p) (meta_title_font R)
                  (cr, cg, cb, 255) 0 None;
          info_text = p_meta_artist p @ '' - '' @ p_meta_album p;
          info_w = textlength lib info_text (meta_info_font R);
          ix = (if p_align p = ''center''
                then fsub (to_float (header_x p)) (of_int \<lfloor>info_w / 2\<rfloor>)
                else (if p_align p = ''left'' then of_int (header_x p)
                      else fsub (to_float (header_x p)) info_w))
      in draw_text lib img (ix, margin_top + of_int (p_font_size p * 2)) info_text
           (meta_info_font R) (cr, cg, cb, 200) 0 None)"

definition render_list :: "int \<Rightarrow> nat \<Rightarrow> int \<Rightarrow> (int \<times> int) list" where
  \<comment> \<open>the pairs (index, distance) for the current index, the number of lines of the track and
      \<^verbatim>\<open>visible_lines\<close>; \<^verbatim>\<open>range(1, visible_lines // 2 + 2)\<close> is \<open>[1..visible_lines div 2 + 1]\<close>\<close>
  "render_list curr_idx n visible_lines =
     (curr_idx, 0) #
     concat (map (\<lambda>i. (if curr_idx - i \<ge> 0 then [(curr_idx - i, - i)] else []) @
                       (if curr_idx + i < int n then [(curr_idx + i, i)] else []))
               [1..visible_lines div 2 + 1])"

record line_params =
  lp_scale :: rat
  lp_alpha :: rat
  lp_blur :: rat
  lp_y_pos :: int

definition line_parameters :: "params \<Rightarrow> int \<Rightarrow> line_params" where
  \<comment> \<open>the parameters the loop of \<^verbatim>\<open>render\<close> computes for a line at \<open>dist_level\<close>,
      in the arithmetic of doubles; \<^verbatim>\<open>0.1\<close> is the double \<open>fl (1 / 10)\<close>\<close>
  "line_parameters p dist_level =
     (let abs_dist = \<bar>dist_level\<bar>;
          scale = max (fl (1 / 10)) (fsub 1 (fmul (p_scale_decay p) (to_float abs_dist)));
          alpha = max 0 (fsub 255 (fmul (fmul (p_fade_decay p) (to_float abs_dist)) 50));
          alpha = (if dist_level = 0 then 255 else alpha);
          blur = fadd (p_blur_base p) (fmul (p_blur_inc p) (to_float abs_dist));
          blur = (if dist_level = 0 then 0 else blur);
          y_pos = center_y p + dist_level * (p_font_size p + p_line_spacing p)
      in \<lparr>lp_scale = scale, lp_alpha = alpha, lp_blur = blur, lp_y_pos = y_pos\<rparr>)"

definition render_line :: "pil \<Rightarrow> renderer \<Rightarrow> image \<Rightarrow> int \<times> int \<Rightarrow> render_error + image" where
  \<comment> \<open>one turn of \<^verbatim>\<open>for idx, dist_level in render_list\<close>\<close>
  "render_line lib R img entry =
     (let (idx, dist_level) = entry; p = r_p R
      in if idx < 0 \<or> idx \<ge> int (length (r_lyrics R)) then Inr img
         else
           let line_text = lyric_text (r_lyrics R ! nat idx);
               lp = line_parameters p dist_level
           in case draw_text_with_effects lib line_text (header_x p) (lp_y_pos lp)
                     (lyric_font R) (p_font_color p) (lp_alpha lp) (lp_scale lp) (lp_blur lp)
                     (p_align p) (p_shadow p) (p_stroke p) of
                Inl e \<Rightarrow> Inl e
              | Inr (res_img, dx, dy) \<Rightarrow>
                  (case res_img of
                     Some layer \<Rightarrow> Inr (paste lib img layer (dx, dy))
                   | None \<Rightarrow> Inr img))"

fun render_loop :: "pil \<Rightarrow> renderer \<Rightarrow> (int \<times> int) list \<Rightarrow> image \<Rightarrow> render_error + image" where
  "render_loop lib R [] img = Inr img"
| "render_loop lib R (entry # rest) img =
     (case render_line lib R img entry of
        Inl e \<Rightarrow> Inl e
      | Inr img' \<Rightarrow> render_loop lib R rest img')"

definition rendered_lines :: "renderer \<Rightarrow> rat \<Rightarrow> (int \<times> int) list" where
  \<comment> \<open>the entries of the render list that pass the bounds check: the lines that are drawn\<close>
  "rendered_lines R current_time =
     filter (\<lambda>(idx, dist_level). \<not> (idx < 0 \<or> idx \<ge> int (length (r_lyrics R))))
       (render_list (get_current_line_index (r_lyrics R) current_time) (length (r_lyrics R))
          (p_visible_lines (r_p R)))"

definition render :: "pil \<Rightarrow> renderer \<Rightarrow> rat \<Rightarrow> render_error + image" where
  "render lib R current_time =
     (let p = r_p R
      in case image_new (p_width p) (p_height p) of
           Inl e \<Rightarrow> Inl e
         | Inr img \<Rightarrow>
             let img = draw_header lib R img;
                 curr_idx = get_current_line_index (r_lyrics R) current_time
             in render_loop lib R
                  (render_list curr_idx (length (r_lyrics R)) (p_visible_lines p)) img)"

section \<open>ExportThread\<close>

text \<open>
  The thread talks to the encoder process and to its listeners; what it does is the list of
  these events, in order. What the thread cannot decide is its environment: whether the
  process starts, whether a write or the close of the pipe raises, the exit code, and the
  calls of \<^verbatim>\<open>stop\<close> from the other thread, given by the turns of the loop before
  whose check of \<^verbatim>\<open>is_running\<close> they arrive. An exception anywhere in \<^verbatim>\<open>run\<close>
  ends it with an error signal. Of the encoder's command line, the event \<open>Popen\<close> keeps
  what varies: width, height, bit rate and output path. The message of an error
  signal is \<^verbatim>\<open>str(e)\<close>.
\<close>

datatype event =
    Popen int int string string
  | StdinWrite "byte list"
  | StdinClose
  | Wait
  | ProgressSignal int
  | FinishedSignal string
  | ErrorSignal string

record env =
  popen_error :: "string option"
  stop_before :: "nat \<Rightarrow> bool"
  write_error :: "nat \<Rightarrow> string option"
  close_error :: "string option"
  returncode :: int

record export_thread =
  et_params :: params
  et_lyrics :: "lyric list"
  et_output_path :: string
  is_running :: bool

definition ExportThread :: "params \<Rightarrow> lyric list \<Rightarrow> string \<Rightarrow> export_thread" where
  "ExportThread p lyrics output_path =
     \<lparr>et_params = p, et_lyrics = lyrics, et_output_path = output_path, is_running = True\<rparr>"

definition stop :: "export_thread \<Rightarrow> export_thread" where
  "stop th = th\<lparr>is_running := False\<rparr>"

definition str_error :: "render_error \<Rightarrow> string" where
  \<comment> \<open>\<^verbatim>\<open>str(e)\<close>: the message of the imaging library for a negative size, and of the
      interpreter for the unpacking of \<^verbatim>\<open>None\<close>\<close>
  "str_error e =
     (case e of
        ValueError \<Rightarrow> ''Width and height must be >= 0''
      | TypeError \<Rightarrow> ''cannot unpack non-iterable NoneType object'')"

definition close_and_wait :: "env \<Rightarrow> event list \<Rightarrow> event list" where
  \<comment> \<open>\<^verbatim>\<open>process.stdin.close(); process.wait()\<close>, then the events \<open>after\<close>\<close>
  "close_and_wait e after =
     (case close_error e of
        Some msg \<Rightarrow> [ErrorSignal msg]
      | None \<Rightarrow> [StdinClose, Wait] @ after)"

fun export_loop :: "env \<Rightarrow> pil \<Rightarrow> renderer \<Rightarrow> int \<Rightarrow> nat list \<Rightarrow> export_thread \<Rightarrow> event list" where
  \<comment> \<open>\<^verbatim>\<open>for i in range(total_frames)\<close> and what follows it\<close>
  "export_loop e lib R total_frames [] th =
     close_and_wait e
       [if returncode e \<noteq> 0 then ErrorSignal ''FFmpeg Error: Export failed (Unknown error).''
        else FinishedSignal ''Export Complete!'']"
| "export_loop e lib R total_frames (i # rest) th =
     (let th = (if stop_before e i then stop th else th)
      in if \<not> is_running th then close_and_wait e []
         else
           let fps = 30; t = of_nat i / fps
           in case render lib R t of
                Inl err \<Rightarrow> [ErrorSignal (str_error err)]
              | Inr img \<Rightarrow>
                  (case write_error e i of
                     Some msg \<Rightarrow> [ErrorSignal msg]
                   | None \<Rightarrow>
                       StdinWrite (tobytes img) #
                       (if i mod 10 = 0
                        then [ProgressSignal
                                (py_int (fmul (fl (of_nat i / of_int total_frames)) 100))]
                        else []) @
                       export_loop e lib R total_frames rest th))"

definition run :: "env \<Rightarrow> pil \<Rightarrow> export_thread \<Rightarrow> event list" where
  "run e lib th =
     (let width = p_width (et_params th);
          height = p_height (et_params th);
          fps = 30;
          duration = p_duration (et_params th);
          total_frames = num_int (num_mul duration (PyInt fps))
      in case popen_error e of
           Some msg \<Rightarrow> [ErrorSignal msg]
         | None \<Rightarrow>
             Popen width height (p_bitrate (et_params th)) (et_output_path th) #
             (let renderer = FrameRenderer lib (et_params th) (et_lyrics th)
              in export_loop e lib renderer total_frames [0..<nat total_frames] th))"

definition frames_written :: "event list \<Rightarrow> byte list list" where
  "frames_written evs = concat (map (\<lambda>ev. case ev of StdinWrite b \<Rightarrow> [b] | _ \<Rightarrow> []) evs)"

definition notifications :: "event list \<Rightarrow> event list" where
  \<comment> \<open>the completion and error signals among the events\<close>
  "notifications evs =
     filter (\<lambda>ev. case ev of FinishedSignal m \<Rightarrow> True | ErrorSignal m \<Rightarrow> True | _ \<Rightarrow> False) evs"

section \<open>Conditions on the imaging library\<close>

text \<open>
  The bounding box the library measures for a text is not inverted: its right edge is not left
  of its left edge, its bottom not above its top. Under this condition the layer of a line
  is never empty, and the renderer does not raise on it. \<open>same_size\<close> compares the size and
  the number of pixels of two images.
\<close>

definition boxes_not_inverted :: "pil \<Rightarrow> bool" where
  "boxes_not_inverted lib =
     (\<forall>text font. case textbbox lib text font of (b0, b1, b2, b3) \<Rightarrow> b0 \<le> b2 \<and> b1 \<le> b3)"

definition same_size :: "image \<Rightarrow> image \<Rightarrow> bool" where
  "same_size a b =
     (im_width a = im_width b \<and> im_height a = im_height b \<and>
      length (im_pixels a) = length (im_pixels b))"

section \<open>Example data\<close>

definition example_track :: "lyric list" where
  "example_track = [\<lparr>lyric_time = 0, lyric_text = ''a''\<rparr>, \<lparr>lyric_time = 2, lyric_text = ''b''\<rparr>,
     \<lparr>lyric_time = 5, lyric_text = ''c''\<rparr>]"

definition example_lrc :: string where
  "example_lrc = ''[00:05.00]b'' @ [CHR 0x0A] @ ''[00:01.00]  '' @ [CHR 0x0D, CHR 0x0A] @
     ''no tag'' @ [CHR 0x0A] @ '' [00:01.50]a [00:09.999]'' @ [CHR 0x0A] @ ''[00:05.000]c''"

definition example_fs :: filesystem where
  "example_fs = [''song.lrc'' \<mapsto> RegularFile example_lrc, ''music'' \<mapsto> Directory]"

definition example_lyrics :: "lyric list" where
  "example_lyrics = [\<lparr>lyric_time = 3 / 2, lyric_text = ''a''\<rparr>,
     \<lparr>lyric_time = 5, lyric_text = ''b''\<rparr>, \<lparr>lyric_time = 5, lyric_text = ''c''\<rparr>]"

definition default_params :: params where
  "default_params =
     \<lparr>p_width = 1920, p_height = 1080, p_duration = PyInt 60, p_bitrate = ''50M'',
      p_visible_lines = 10, p_line_spacing = 80, p_align = ''center'',
      p_font_path = ''arial.ttf'', p_font_size = 60, p_font_color = (255, 255, 255),
      p_scale_decay = fl (1 / 10), p_fade_decay = 1 / 2, p_blur_base = 0, p_blur_inc = 2,
      p_meta_title = ''Song Title'', p_meta_artist = ''Artist'', p_meta_album = ''Album'',
      p_shadow = \<lparr>shadow_enabled = False, shadow_color = (0, 0, 0), shadow_x = 2, shadow_y = 2\<rparr>,
      p_stroke = \<lparr>stroke_enabled = False, stroke_color = (0, 0, 0), stroke_width = 2\<rparr>\<rparr>"

definition example_pil :: pil where
  "example_pil =
     \<lparr>truetype_loads = (\<lambda>path sz. False),
      textlength = (\<lambda>s f. of_nat (length s) * 10),
      textbbox = (\<lambda>s f. (0, 0, of_nat (length s) * 10, 12)),
      text_pixel = (\<lambda>xy s f fill sw sf c old. old),
      resize_pixel = (\<lambda>img wh c. transparent),
      blur_pixel = (\<lambda>radius img c. pixel_at img c),
      paste_pixel = (\<lambda>src dst. src)\<rparr>"

definition example_renderer :: renderer where
  "example_renderer = FrameRenderer example_pil default_params example_track"

definition ok_env :: env where
  "ok_env = \<lparr>popen_error = None, stop_before = (\<lambda>i. False), write_error = (\<lambda>i. None),
     close_error = None, returncode = 0\<rparr>"

definition cancel_env :: env where
  "cancel_env = \<lparr>popen_error = None, stop_before = (\<lambda>i. i = 2), write_error = (\<lambda>i. None),
     close_error = None, returncode = 0\<rparr>"

definition small_params :: params where
  "small_params = default_params\<lparr>p_width := 2, p_height := 2, p_duration := PyInt 1\<rparr>"

definition faded_params :: params where
  "faded_params = default_params\<lparr>p_fade_decay := 1\<rparr>"

definition one_pixel :: image where
  "one_pixel = \<lparr>im_width = 1, im_height = 1, im_pixels = [transparent]\<rparr>"

section \<open>Properties\<close>

subsection \<open>The parser\<close>

lemma parse_loop_acc: "parse_loop lines acc = acc @ parse_loop lines []"
proof (induction lines arbitrary: acc)
  case Nil
  show ?case by simp
next
  case (Cons line lines)
  show ?case
    using Cons.IH [of "acc @ [x]" for x] Cons.IH [of "[x]" for x] Cons.IH [of acc]
    by (simp add: Let_def split: option.splits)
qed

lemma parse_loop_Cons: "parse_loop (line # lines) acc = acc @ parse_line line @ parse_loop lines []"
  unfolding parse_line_def
  using parse_loop_acc [of lines "acc @ [x]" for x] parse_loop_acc [of lines acc]
  by (simp add: Let_def split: option.splits)

lemma total_seconds_nonneg: "0 \<le> total_seconds mm ss ms"
  by (simp add: total_seconds_def Let_def)

lemma parse_line_entries:
  "e \<in> set (parse_line line) \<Longrightarrow> lyric_text e \<noteq> [] \<and> 0 \<le> lyric_time e"
  by (auto simp: parse_line_def Let_def total_seconds_nonneg split: option.splits if_splits)

lemma parse_loop_entries:
  "e \<in> set (parse_loop lines []) \<Longrightarrow> lyric_text e \<noteq> [] \<and> 0 \<le> lyric_time e"
proof (induction lines)
  case Nil
  then show ?case by simp
next
  case (Cons line lines)
  from Cons.prems have "e \<in> set (parse_line line) \<or> e \<in> set (parse_loop lines [])"
    by (simp add: parse_loop_Cons [of line lines "[]"] del: parse_loop.simps)
  then show ?case using parse_line_entries Cons.IH by blast
qed


lemma readlines_example:
  "readlines example_lrc = [''[00:05.00]b'' @ [CHR 0x0A], ''[00:01.00]  '' @ [CHR 0x0A],
     ''no tag'' @ [CHR 0x0A], '' [00:01.50]a [00:09.999]'' @ [CHR 0x0A], ''[00:05.000]c'']"
  by (simp add: readlines_def example_lrc_def)

lemma parse_loop_example:
  "parse_loop (readlines example_lrc) [] = [\<lparr>lyric_time = 5, lyric_text = ''b''\<rparr>,
     \<lparr>lyric_time = 3 / 2, lyric_text = ''a''\<rparr>, \<lparr>lyric_time = 5, lyric_text = ''c''\<rparr>]"
  unfolding readlines_example
  by (simp add: Let_def strip_def py_isspace_def is_digit_def total_seconds_def int_of_str_def
      digit_val_def)

lemma parse_example: "parse example_fs ''song.lrc'' = Inr example_lyrics"
  by (simp add: parse_def example_fs_def parse_loop_example example_lyrics_def)

lemma parse_directory: "parse example_fs ''music'' = Inl IsADirectoryError"
  by (simp add: parse_def example_fs_def)

lemma parse_loop_concat: "parse_loop lines [] = concat (map parse_line lines)"
proof (induction lines)
  case Nil
  show ?case by simp
next
  case (Cons line lines)
  then show ?case by (simp add: parse_loop_Cons [of line lines "[]"] del: parse_loop.simps)
qed


text \<open>
  C9. For a file path that is empty, or at which nothing exists, \<open>parse\<close> returns the empty
  sequence: it returns (\<open>Inr\<close>), it does not raise.
\<close>

theorem parse_missing_file:
  "file_path = [] \<or> fs file_path = None \<Longrightarrow> parse fs file_path = Inr []"
  by (simp add: parse_def)

theorem parse_missing_file_witness:
  "(''song.lrc'' = [] \<or> (Map.empty :: filesystem) ''song.lrc'' = None) \<and>
   parse Map.empty ''song.lrc'' = Inr [] \<and> parse [''a.lrc'' \<mapsto> Directory] [] = Inr []"
  using parse_missing_file [of "''song.lrc''" Map.empty]
    parse_missing_file [of "[]" "[''a.lrc'' \<mapsto> Directory]"]
  by simp

lemma strip_between:
  assumes "\<not> py_isspace c" and "\<not> py_isspace d"
  shows "strip (c # mid @ d # text) = c # mid @ d # rev (dropWhile py_isspace (rev text))"
proof -
  have "dropWhile py_isspace (rev text @ d # rev mid @ [c]) =
        dropWhile py_isspace (rev text) @ d # rev mid @ [c]"
  proof (cases "\<forall>x\<in>set (rev text). py_isspace x")
    case True
    then have "dropWhile py_isspace (rev text) = []" by simp
    then show ?thesis using True assms by (simp add: dropWhile_append)
  next
    case False
    then show ?thesis by (auto simp: dropWhile_append)
  qed
  then show ?thesis using assms by (simp add: strip_def)
qed

lemma not_digit_bracket: "\<not> is_digit (CHR '']'')"
  by (simp add: is_digit_def)

lemma not_space_bracket: "\<not> py_isspace (CHR ''['')" "\<not> py_isspace (CHR '']'')"
  by (simp_all add: py_isspace_def)

lemma match_tag_two:
  assumes "is_digit m1" "is_digit m2" "is_digit s1" "is_digit s2" "is_digit f1" "is_digit f2"
  shows "match_tag (CHR ''['' # m1 # m2 # CHR '':'' # s1 # s2 # CHR ''.'' # f1 # f2 # CHR '']'' # r)
         = Some ([m1, m2], [s1, s2], [f1, f2], r)"
  using assms by (simp add: not_digit_bracket)

lemma match_tag_three:
  assumes "is_digit m1" "is_digit m2" "is_digit s1" "is_digit s2" "is_digit f1" "is_digit f2"
    "is_digit f3"
  shows "match_tag (CHR ''['' # m1 # m2 # CHR '':'' # s1 # s2 # CHR ''.'' # f1 # f2 # f3 # CHR '']'' # r)
         = Some ([m1, m2], [s1, s2], [f1, f2, f3], r)"
  using assms by simp

lemma int_of_str_two: "int_of_str [a, b] = 10 * digit_val a + digit_val b"
  by (simp add: int_of_str_def)

lemma int_of_str_three: "int_of_str [a, b, c] = 100 * digit_val a + 10 * digit_val b + digit_val c"
  by (simp add: int_of_str_def)

text \<open>
  C5. A line that starts with a well-formed tag \<^verbatim>\<open>[MM:SS.ff]\<close> or \<^verbatim>\<open>[MM:SS.fff]\<close>
  (\<open>f3s\<close> is the third fractional digit, when there is one) and whose text is kept is parsed
  to the timestamp \<open>MM * 60 + SS + ms / 1000\<close>, where \<open>MM\<close> and \<open>SS\<close> are the decimal
  values of the two-digit fields, and \<open>ms\<close> is the value of a two-digit fraction times ten,
  or the value of a three-digit fraction as it is. The two examples of the specification are
  \<open>parse_loop_examples\<close>.
\<close>

theorem parse_tagged_line_timestamp:
  assumes digits: "is_digit m1" "is_digit m2" "is_digit s1" "is_digit s2" "is_digit f1" "is_digit f2"
    and third: "f3s = [] \<or> (\<exists>f3. f3s = [f3] \<and> is_digit f3)"
    and line: "line = CHR ''['' # m1 # m2 # CHR '':'' # s1 # s2 # CHR ''.'' # f1 # f2 # f3s @ CHR '']'' # text"
    and kept: "strip (sub_tags (strip line)) \<noteq> []"
  shows "parse_loop [line] [] =
     [\<lparr>lyric_time =
          of_nat ((10 * digit_val m1 + digit_val m2) * 60 + (10 * digit_val s1 + digit_val s2)) +
          of_nat (case f3s of
                    [] \<Rightarrow> (10 * digit_val f1 + digit_val f2) * 10
                  | f3 # _ \<Rightarrow> 100 * digit_val f1 + 10 * digit_val f2 + digit_val f3) / 1000,
        lyric_text = strip (sub_tags (strip line))\<rparr>]"
proof -
  let ?rest = "rev (dropWhile py_isspace (rev text))"
  from third show ?thesis
  proof
    assume e: "f3s = []"
    have s: "strip line = CHR ''['' # m1 # m2 # CHR '':'' # s1 # s2 # CHR ''.'' # f1 # f2 # CHR '']'' # ?rest"
      using strip_between [of "CHR ''[''" "CHR '']''" "[m1, m2, CHR '':'', s1, s2, CHR ''.'', f1, f2]" "text"]
      by (simp add: line e not_space_bracket)
    have m: "search (strip line) = Some ([m1, m2], [s1, s2], [f1, f2])"
      unfolding s using match_tag_two [OF digits] by simp
    have t: "total_seconds [m1, m2] [s1, s2] [f1, f2] =
        of_nat ((10 * digit_val m1 + digit_val m2) * 60 + (10 * digit_val s1 + digit_val s2)) +
        of_nat ((10 * digit_val f1 + digit_val f2) * 10) / 1000"
      by (simp add: total_seconds_def Let_def int_of_str_two)
    show ?thesis using kept m t e by (simp add: Let_def)
  next
    assume "\<exists>f3. f3s = [f3] \<and> is_digit f3"
    then obtain f3 where e: "f3s = [f3]" and d3: "is_digit f3" by blast
    have s: "strip line = CHR ''['' # m1 # m2 # CHR '':'' # s1 # s2 # CHR ''.'' # f1 # f2 # f3 # CHR '']'' # ?rest"
      using strip_between [of "CHR ''[''" "CHR '']''" "[m1, m2, CHR '':'', s1, s2, CHR ''.'', f1, f2, f3]" "text"]
      by (simp add: line e not_space_bracket)
    have m: "search (strip line) = Some ([m1, m2], [s1, s2], [f1, f2, f3])"
      unfolding s using match_tag_three [OF digits d3] by simp
    have t: "total_seconds [m1, m2] [s1, s2] [f1, f2, f3] =
        of_nat ((10 * digit_val m1 + digit_val m2) * 60 + (10 * digit_val s1 + digit_val s2)) +
        of_nat (100 * digit_val f1 + 10 * digit_val f2 + digit_val f3) / 1000"
      by (simp add: total_seconds_def Let_def int_of_str_two int_of_str_three)
    show ?thesis using kept m t e by (simp add: Let_def)
  qed
qed

lemma parse_loop_examples:
  "parse_loop [''[01:02.50]Hello''] [] = [\<lparr>lyric_time = 125 / 2, lyric_text = ''Hello''\<rparr>]"
  "parse_loop [''[00:00.123]Hi''] [] = [\<lparr>lyric_time = 123 / 1000, lyric_text = ''Hi''\<rparr>]"
  by (simp_all add: Let_def strip_def py_isspace_def is_digit_def total_seconds_def int_of_str_def
      digit_val_def)


theorem parse_tagged_line_timestamp_witness:
  "is_digit CHR ''0'' \<and> is_digit CHR ''1'' \<and> is_digit CHR ''2'' \<and> is_digit CHR ''5'' \<and>
   strip (sub_tags (strip ''[01:02.50]Hello'')) \<noteq> [] \<and>
   parse_loop [''[01:02.50]Hello''] [] = [\<lparr>lyric_time = 125 / 2, lyric_text = ''Hello''\<rparr>]"
proof -
  have d: "is_digit CHR ''0''" "is_digit CHR ''1''" "is_digit CHR ''2''" "is_digit CHR ''5''"
    by (simp_all add: is_digit_def)
  have k: "strip (sub_tags (strip ''[01:02.50]Hello'')) = ''Hello''"
    by (simp add: strip_def py_isspace_def is_digit_def)
  have "parse_loop [''[01:02.50]Hello''] [] =
     [\<lparr>lyric_time = of_nat ((10 * digit_val CHR ''0'' + digit_val CHR ''1'') * 60 +
          (10 * digit_val CHR ''0'' + digit_val CHR ''2'')) +
          of_nat ((10 * digit_val CHR ''5'' + digit_val CHR ''0'') * 10) / 1000,
        lyric_text = strip (sub_tags (strip ''[01:02.50]Hello''))\<rparr>]"
    using parse_tagged_line_timestamp [of "CHR ''0''" "CHR ''1''" "CHR ''0''" "CHR ''2''"
        "CHR ''5''" "CHR ''0''" "[]" "''[01:02.50]Hello''" "''Hello''"] d k
    by simp
  then show ?thesis using d k by (simp add: digit_val_def)
qed

text \<open>
  C6. Whatever the source, the sequence \<open>parse\<close> returns is sorted ascending by timestamp,
  and for a file that was read, the entries of any one timestamp stand in the result in the
  order of their lines in the file: the sort is stable.
\<close>

theorem parse_sorted_stable:
  assumes "parse fs file_path = Inr lyrics"
  shows "sorted (map lyric_time lyrics) \<and>
         (\<forall>content. fs file_path = Some (RegularFile content) \<and> file_path \<noteq> [] \<longrightarrow>
            (\<forall>k. filter (\<lambda>e. lyric_time e = k) lyrics =
                 filter (\<lambda>e. lyric_time e = k) (concat (map parse_line (readlines content)))))"
proof (cases "file_path = [] \<or> fs file_path = None")
  case True
  then have "lyrics = []" using assms by (simp add: parse_def)
  then show ?thesis using True by auto
next
  case False
  then obtain n where n: "fs file_path = Some n" by auto
  show ?thesis
  proof (cases n)
    case (RegularFile content)
    then have "lyrics = sort_key lyric_time (parse_loop (readlines content) [])"
      using assms False n by (simp add: parse_def)
    then show ?thesis using n RegularFile by (simp add: sort_key_stable parse_loop_concat)
  next
    case Directory
    then show ?thesis using assms False n by (simp add: parse_def)
  next
    case Unreadable
    then show ?thesis using assms False n by (simp add: parse_def)
  qed
qed

theorem parse_sorted_stable_witness:
  "parse example_fs ''song.lrc'' = Inr example_lyrics \<and>
   sorted (map lyric_time example_lyrics) \<and>
   example_fs ''song.lrc'' = Some (RegularFile example_lrc) \<and>
   filter (\<lambda>e. lyric_time e = 5) example_lyrics =
     filter (\<lambda>e. lyric_time e = 5) (concat (map parse_line (readlines example_lrc))) \<and>
   map lyric_text (filter (\<lambda>e. lyric_time e = 5) example_lyrics) = [''b'', ''c'']"
proof -
  have f: "example_fs ''song.lrc'' = Some (RegularFile example_lrc)"
    by (simp add: example_fs_def)
  have v: "map lyric_text (filter (\<lambda>e. lyric_time e = 5) example_lyrics) = [''b'', ''c'']"
    by (simp add: example_lyrics_def)
  show ?thesis using parse_sorted_stable [OF parse_example] parse_example f v by simp
qed

text \<open>
  C10. Every entry of the sequence \<open>parse\<close> returns has a non-empty text and a timestamp
  that is not negative; and a line whose text is empty once its tags are removed and it is
  stripped adds nothing to the output, a line with a tag among them.
\<close>

theorem parse_entries_well_formed:
  "(parse fs file_path = Inr lyrics \<longrightarrow>
      (\<forall>e\<in>set lyrics. lyric_text e \<noteq> [] \<and> 0 \<le> lyric_time e)) \<and>
   (strip (sub_tags (strip line)) = [] \<longrightarrow> parse_loop (line # lines) acc = parse_loop lines acc)"
proof (intro conjI impI)
  assume p: "parse fs file_path = Inr lyrics"
  show "\<forall>e\<in>set lyrics. lyric_text e \<noteq> [] \<and> 0 \<le> lyric_time e"
  proof (cases "file_path = [] \<or> fs file_path = None")
    case True
    then show ?thesis using p by (simp add: parse_def)
  next
    case False
    then obtain n where n: "fs file_path = Some n" by auto
    show ?thesis
    proof (cases n)
      case (RegularFile content)
      then have "set lyrics = set (parse_loop (readlines content) [])"
        using p False n by (auto simp: parse_def)
      then show ?thesis using parse_loop_entries by blast
    next
      case Directory
      then show ?thesis using p False n by (simp add: parse_def)
    next
      case Unreadable
      then show ?thesis using p False n by (simp add: parse_def)
    qed
  qed
next
  assume "strip (sub_tags (strip line)) = []"
  then show "parse_loop (line # lines) acc = parse_loop lines acc"
    by (simp add: Let_def split: option.splits)
qed

theorem parse_entries_well_formed_witness:
  "parse example_fs ''song.lrc'' = Inr example_lyrics \<and>
   list_all (\<lambda>e. lyric_text e \<noteq> [] \<and> 0 \<le> lyric_time e) example_lyrics \<and>
   search (strip ''[00:01.00]  '') = Some (''00'', ''01'', ''00'') \<and>
   strip (sub_tags (strip ''[00:01.00]  '')) = [] \<and>
   parse_loop [''[00:01.00]  '', ''[00:02.00]x''] [] = parse_loop [''[00:02.00]x''] []"
proof -
  have e: "strip (sub_tags (strip ''[00:01.00]  '')) = []"
    by (simp add: strip_def py_isspace_def is_digit_def)
  have m: "search (strip ''[00:01.00]  '') = Some (''00'', ''01'', ''00'')"
    by (simp add: strip_def py_isspace_def is_digit_def)
  show ?thesis
    using parse_entries_well_formed [of example_fs "''song.lrc''" example_lyrics
        "''[00:01.00]  ''" "[''[00:02.00]x'']" "[]"] parse_example e m
    by (simp add: list_all_iff)
qed

subsection \<open>The active line\<close>

lemma scan_lines_takeWhile:
  "scan_lines t ls i idx =
     (let k = length (takeWhile (\<lambda>l. lyric_time l \<le> t) ls)
      in if k = 0 then idx else int (i + k) - 1)"
  by (induction ls arbitrary: i idx) (auto simp: Let_def)

lemma sorted_after_takeWhile:
  assumes "sorted (map lyric_time ls)" and "j < length ls"
    and "length (takeWhile (\<lambda>l. lyric_time l \<le> t) ls) \<le> j"
  shows "\<not> lyric_time (ls ! j) \<le> t"
proof -
  let ?P = "\<lambda>l. lyric_time l \<le> t"
  let ?k = "length (takeWhile ?P ls)"
  have k: "?k < length ls" using assms by simp
  then have nk: "\<not> ?P (ls ! ?k)" by (rule nth_length_takeWhile)
  have "lyric_time (ls ! ?k) \<le> lyric_time (ls ! j)"
    using assms k sorted_nth_mono [of "map lyric_time ls" ?k j] by simp
  with nk show ?thesis by simp
qed

text \<open>
  C4. On a track sorted ascending by timestamp, \<open>get_current_line_index\<close> returns the
  greatest index whose timestamp is at most the query timestamp, and \<open>-1\<close> when no entry
  has one (the empty track among them). The examples of the specification are
  \<open>get_current_line_index_examples\<close>.
\<close>

theorem get_current_line_index_greatest:
  assumes "sorted (map lyric_time lyrics)"
  shows "(if \<exists>i<length lyrics. lyric_time (lyrics ! i) \<le> t
          then 0 \<le> get_current_line_index lyrics t \<and>
               nat (get_current_line_index lyrics t) < length lyrics \<and>
               lyric_time (lyrics ! nat (get_current_line_index lyrics t)) \<le> t \<and>
               (\<forall>j<length lyrics. lyric_time (lyrics ! j) \<le> t \<longrightarrow>
                    j \<le> nat (get_current_line_index lyrics t))
          else get_current_line_index lyrics t = - 1)"
proof -
  let ?P = "\<lambda>l. lyric_time l \<le> t"
  let ?k = "length (takeWhile ?P lyrics)"
  have r: "get_current_line_index lyrics t = (if ?k = 0 then - 1 else int ?k - 1)"
    by (simp add: get_current_line_index_def scan_lines_takeWhile Let_def)
  have kle: "?k \<le> length lyrics" by (rule length_takeWhile_le)
  have after: "\<And>j. j < length lyrics \<Longrightarrow> ?k \<le> j \<Longrightarrow> \<not> ?P (lyrics ! j)"
    using sorted_after_takeWhile [OF assms] by blast
  have before: "\<And>j. j < ?k \<Longrightarrow> ?P (lyrics ! j)"
  proof -
    fix j assume j: "j < ?k"
    then have "takeWhile ?P lyrics ! j = lyrics ! j" by (rule takeWhile_nth)
    moreover have "takeWhile ?P lyrics ! j \<in> set (takeWhile ?P lyrics)" using j by simp
    ultimately show "?P (lyrics ! j)" using set_takeWhileD by metis
  qed
  show ?thesis
  proof (cases "?k = 0")
    case True
    then have "\<not> (\<exists>i<length lyrics. ?P (lyrics ! i))" using after by auto
    then show ?thesis using r True by simp
  next
    case False
    then have pos: "0 < ?k" by simp
    have r': "get_current_line_index lyrics t = int ?k - 1" using r False by simp
    have nonneg: "0 \<le> get_current_line_index lyrics t" using r' pos by linarith
    have ri: "nat (get_current_line_index lyrics t) = ?k - 1" using r' pos by linarith
    have ex: "\<exists>i<length lyrics. ?P (lyrics ! i)"
      using before [of 0] pos kle by (intro exI [of _ 0]) auto
    have inb: "?k - 1 < length lyrics" using pos kle by linarith
    have "?k - 1 < ?k" using pos by linarith
    then have here: "?P (lyrics ! (?k - 1))" by (rule before)
    have top: "\<forall>j<length lyrics. ?P (lyrics ! j) \<longrightarrow> j \<le> ?k - 1"
    proof (intro allI impI)
      fix j assume "j < length lyrics" "?P (lyrics ! j)"
      then have "\<not> ?k \<le> j" using after by blast
      then show "j \<le> ?k - 1" by linarith
    qed
    show ?thesis unfolding ri using ex nonneg inb here top by simp
  qed
qed

lemma get_current_line_index_examples:
  "get_current_line_index example_track 1 = 0"
  "get_current_line_index example_track 2 = 1"
  "get_current_line_index example_track (11/2) = 2"
  "get_current_line_index example_track (- 1) = - 1"
  "get_current_line_index [] t = - 1"
  by (simp_all add: get_current_line_index_def example_track_def)

theorem get_current_line_index_greatest_witness:
  "sorted (map lyric_time example_track) \<and>
   (\<exists>i<length example_track. lyric_time (example_track ! i) \<le> 11 / 2) \<and>
   0 \<le> get_current_line_index example_track (11 / 2) \<and>
   nat (get_current_line_index example_track (11 / 2)) < length example_track \<and>
   lyric_time (example_track ! nat (get_current_line_index example_track (11 / 2))) \<le> 11 / 2"
proof -
  have s: "sorted (map lyric_time example_track)" by (simp add: example_track_def)
  have e: "\<exists>i<length example_track. lyric_time (example_track ! i) \<le> 11 / 2"
    by (intro exI [of _ 0]) (simp add: example_track_def)
  show ?thesis using get_current_line_index_greatest [OF s, of "11 / 2"] s e by simp
qed

subsection \<open>Doubles\<close>

lemma fl_examples:
  "fl (1 / 10) = 3602879701896397 / 36028797018963968"
  "fl 3 = 3"
  "fl (1 / 2) = 1 / 2"
  "fl (- 5 / 4) = - 5 / 4"
  by code_simp+

lemma pow2_pos: "0 < pow2 e"
  by (simp add: pow2_def)

lemma round_half_even_ge_floor: "\<lfloor>y\<rfloor> \<le> round_half_even y"
  by (simp add: round_half_even_def Let_def)

lemma fl_nonneg:
  assumes "0 \<le> x"
  shows "0 \<le> fl x"
proof (cases "x = 0")
  case True
  then show ?thesis by (simp add: fl_def)
next
  case False
  define u where "u = pow2 (max (ilog2 \<bar>x\<bar> - 52) (- 1074))"
  have u: "0 < u" unfolding u_def by (rule pow2_pos)
  then have "0 \<le> x / u" using assms by simp
  then have "0 \<le> \<lfloor>x / u\<rfloor>" by simp
  then have "0 \<le> round_half_even (x / u)" using round_half_even_ge_floor [of "x / u"] by linarith
  then have "0 \<le> of_int (round_half_even (x / u)) * u" using u by simp
  then show ?thesis using False by (simp add: fl_def Let_def u_def)
qed

lemma bit_length_pos: "0 < n \<Longrightarrow> 0 < bit_length n"
  by (subst bit_length.simps) simp

lemma bit_length_lower: "0 < n \<Longrightarrow> 2 ^ (bit_length n - 1) \<le> n"
proof (induction n rule: bit_length.induct)
  case (1 n)
  show ?case
  proof (cases "n div 2 = 0")
    case True
    then have "bit_length (n div 2) = 0" by (subst bit_length.simps) simp
    then have "bit_length n = 1" using "1.prems" by (subst bit_length.simps) simp
    then show ?thesis using "1.prems" by simp
  next
    case False
    then have pos: "0 < n div 2" by simp
    then have ih: "2 ^ (bit_length (n div 2) - 1) \<le> n div 2" using "1.IH" "1.prems" by simp
    have b: "bit_length n = Suc (bit_length (n div 2))"
      using "1.prems" by (subst bit_length.simps) simp
    have "0 < bit_length (n div 2)" using pos by (rule bit_length_pos)
    then have "bit_length n - 1 = Suc (bit_length (n div 2) - 1)" using b by simp
    then have "(2::nat) ^ (bit_length n - 1) = 2 * 2 ^ (bit_length (n div 2) - 1)" by simp
    also have "\<dots> \<le> 2 * (n div 2)" using ih by simp
    also have "\<dots> \<le> n" by simp
    finally show ?thesis .
  qed
qed

lemma fl_ge_one:
  assumes "1 \<le> x"
  shows "1 \<le> fl x"
proof -
  define e where "e = max (ilog2 \<bar>x\<bar> - 52) (- 1074)"
  define u where "u = pow2 e"
  have x0: "x \<noteq> 0" using assms by simp
  have f: "fl x = of_int (round_half_even (x / u)) * u"
    using x0 by (simp add: fl_def Let_def u_def e_def)
  have u: "0 < u" unfolding u_def by (rule pow2_pos)
  show ?thesis
  proof (cases "e \<le> 0")
    case True
    define m where "m = nat (- e)"
    have um: "u = 1 / 2 ^ m"
      using True by (cases "e = 0") (simp_all add: u_def pow2_def m_def)
    have "(2::rat) ^ m \<le> x * 2 ^ m" using assms by simp
    then have "of_int (2 ^ m) \<le> x / u" by (simp add: um)
    then have "2 ^ m \<le> \<lfloor>x / u\<rfloor>" by (simp add: le_floor_iff)
    then have "2 ^ m \<le> round_half_even (x / u)"
      using round_half_even_ge_floor [of "x / u"] by linarith
    then have "(of_int (2 ^ m) :: rat) \<le> of_int (round_half_even (x / u))"
      by (simp only: of_int_le_iff)
    then have "(2::rat) ^ m * u \<le> of_int (round_half_even (x / u)) * u"
      using u by simp
    then show ?thesis by (simp add: f um)
  next
    case False
    then have epos: "0 < e" by simp
    then have ee: "e = ilog2 \<bar>x\<bar> - 52" unfolding e_def by linarith
    have ax: "\<bar>x\<bar> = x" using assms by simp
    define n where "n = nat \<lfloor>x\<rfloor>"
    have fx: "1 \<le> \<lfloor>x\<rfloor>" using assms by (simp add: le_floor_iff)
    then have npos: "0 < n" unfolding n_def by simp
    have il: "ilog2 x = int (bit_length n) - 1" using assms by (simp add: ilog2_def n_def)
    have bl: "2 ^ (bit_length n - 1) \<le> n" using npos by (rule bit_length_lower)
    have "nat e \<le> bit_length n - 1" using ee il ax by simp
    then have "(2::nat) ^ nat e \<le> 2 ^ (bit_length n - 1)" by (intro power_increasing) simp_all
    then have "2 ^ nat e \<le> n" using bl by linarith
    then have "int (2 ^ nat e) \<le> int n" by (simp only: of_nat_le_iff)
    moreover have "int n = \<lfloor>x\<rfloor>" using fx by (simp add: n_def)
    ultimately have "int (2 ^ nat e) \<le> \<lfloor>x\<rfloor>" by simp
    then have "of_int (int (2 ^ nat e)) \<le> x" by (simp only: le_floor_iff)
    then have ux: "u \<le> x" using epos by (simp add: u_def pow2_def)
    then have "1 \<le> x / u" using u by simp
    then have "1 \<le> \<lfloor>x / u\<rfloor>" by (simp add: le_floor_iff)
    then have "1 \<le> round_half_even (x / u)"
      using round_half_even_ge_floor [of "x / u"] by linarith
    then have "(1::rat) \<le> of_int (round_half_even (x / u))" by simp
    moreover have "1 \<le> u" using epos by (simp add: u_def pow2_def)
    ultimately have "1 * 1 \<le> of_int (round_half_even (x / u)) * u"
      by (intro mult_mono) simp_all
    then show ?thesis by (simp add: f)
  qed
qed

lemma layer_side_positive:
  assumes "a \<le> b"
  shows "0 < py_int (fadd (fsub b a) 40)"
proof -
  have "0 \<le> fsub b a" unfolding fsub_def using assms by (intro fl_nonneg) simp
  then have "1 \<le> fsub b a + 40" by simp
  then have "1 \<le> fadd (fsub b a) 40" unfolding fadd_def by (rule fl_ge_one)
  then show ?thesis by (simp add: py_int_def)
qed

subsection \<open>Frames keep their size\<close>

lemma same_size_refl: "same_size a a"
  by (simp add: same_size_def)

lemma same_size_trans: "same_size a b \<Longrightarrow> same_size b c \<Longrightarrow> same_size a c"
  by (simp add: same_size_def)

lemma same_size_draw_text: "same_size (draw_text lib img xy s f fill sw sf) img"
  by (simp add: same_size_def draw_text_def)

lemma same_size_paste: "same_size (paste lib img src box) img"
  by (simp add: same_size_def paste_def)

lemma same_size_draw_header: "same_size (draw_header lib R img) img"
  by (simp add: draw_header_def Let_def same_size_def draw_text_def split: prod.splits)

lemma image_new_size:
  "image_new w h = Inr img \<Longrightarrow>
   im_width img = nat w \<and> im_height img = nat h \<and> length (im_pixels img) = nat w * nat h"
  by (auto simp: image_new_def split: if_splits)

lemma image_new_ok: "0 \<le> w \<Longrightarrow> 0 \<le> h \<Longrightarrow> \<exists>img. image_new w h = Inr img"
  by (simp add: image_new_def)

lemma draw_text_with_effects_faded:
  "alpha \<le> 5 \<Longrightarrow>
   draw_text_with_effects lib text x y font color alpha scale blur_radius align sh st =
     Inr (None, 0, 0)"
  by (simp add: draw_text_with_effects_def)

lemma draw_text_with_effects_ok:
  assumes "boxes_not_inverted lib"
  shows "\<exists>res. draw_text_with_effects lib text x y font color alpha scale blur_radius align sh st
           = Inr res"
proof (cases "alpha \<le> 5")
  case True
  then show ?thesis by (simp add: draw_text_with_effects_faded)
next
  case False
  obtain b0 b1 b2 b3 where b: "textbbox lib text font = (b0, b1, b2, b3)"
    by (cases "textbbox lib text font") auto
  have le: "b0 \<le> b2" "b1 \<le> b3"
    using assms b unfolding boxes_not_inverted_def by (auto split: prod.splits)
  have w: "0 < py_int (fadd (fsub b2 b0) 40)" using le(1) by (rule layer_side_positive)
  have h: "0 < py_int (fadd (fsub b3 b1) 40)" using le(2) by (rule layer_side_positive)
  obtain layer where n:
    "image_new (py_int (fadd (fsub b2 b0) 40)) (py_int (fadd (fsub b3 b1) 40)) = Inr layer"
    using image_new_ok [of "py_int (fadd (fsub b2 b0) 40)" "py_int (fadd (fsub b3 b1) 40)"] w h
    by auto
  show ?thesis
    using False b w h n
    by (simp add: draw_text_with_effects_def Let_def split: prod.splits)
qed

lemma render_line_ok:
  assumes "boxes_not_inverted lib"
  shows "\<exists>img'. render_line lib R img entry = Inr img' \<and> same_size img' img"
proof -
  obtain idx dist_level where e: "entry = (idx, dist_level)" by (cases entry)
  show ?thesis
  proof (cases "idx < 0 \<or> idx \<ge> int (length (r_lyrics R))")
    case True
    then show ?thesis using e by (auto simp: render_line_def same_size_refl)
  next
    case False
    let ?lp = "line_parameters (r_p R) dist_level"
    obtain res dx dy where d:
      "draw_text_with_effects lib (lyric_text (r_lyrics R ! nat idx)) (header_x (r_p R))
         (lp_y_pos ?lp) (lyric_font R) (p_font_color (r_p R)) (lp_alpha ?lp) (lp_scale ?lp)
         (lp_blur ?lp) (p_align (r_p R)) (p_shadow (r_p R)) (p_stroke (r_p R)) = Inr (res, dx, dy)"
      using draw_text_with_effects_ok [OF assms] by (metis prod_cases3)
    show ?thesis
      using False e d
      by (cases res) (auto simp: render_line_def Let_def same_size_refl same_size_paste)
  qed
qed

lemma render_loop_ok:
  assumes "boxes_not_inverted lib"
  shows "\<exists>img'. render_loop lib R entries img = Inr img' \<and> same_size img' img"
proof (induction entries arbitrary: img)
  case Nil
  show ?case by (simp add: same_size_refl)
next
  case (Cons entry rest)
  obtain img1 where 1: "render_line lib R img entry = Inr img1" "same_size img1 img"
    using render_line_ok [OF assms] by blast
  obtain img2 where 2: "render_loop lib R rest img1 = Inr img2" "same_size img2 img1"
    using Cons.IH by blast
  show ?case using 1 2 same_size_trans by auto
qed

lemma render_ok:
  assumes "boxes_not_inverted lib" "0 \<le> p_width (r_p R)" "0 \<le> p_height (r_p R)"
  shows "\<exists>img. render lib R t = Inr img \<and>
           length (im_pixels img) = nat (p_width (r_p R)) * nat (p_height (r_p R))"
proof -
  obtain img0 where 0: "image_new (p_width (r_p R)) (p_height (r_p R)) = Inr img0"
    using image_new_ok assms by blast
  have s0: "length (im_pixels img0) = nat (p_width (r_p R)) * nat (p_height (r_p R))"
    using image_new_size [OF 0] by simp
  obtain img where 1:
    "render_loop lib R (render_list (get_current_line_index (r_lyrics R) t)
       (length (r_lyrics R)) (p_visible_lines (r_p R))) (draw_header lib R img0) = Inr img"
    "same_size img (draw_header lib R img0)"
    using render_loop_ok [OF assms(1)] by blast
  have "same_size img img0" using 1(2) same_size_draw_header same_size_trans by blast
  then have "length (im_pixels img) = nat (p_width (r_p R)) * nat (p_height (r_p R))"
    using s0 by (simp add: same_size_def)
  then show ?thesis using 0 1(1) by (simp add: render_def Let_def)
qed

lemma length_tobytes: "length (tobytes img) = 4 * length (im_pixels img)"
proof -
  have "length (concat (map (\<lambda>(r, g, b, a). [r, g, b, a]) xs)) = 4 * length xs"
    for xs :: "pixel list"
    by (induction xs) auto
  then show ?thesis by (simp add: tobytes_def)
qed

lemma FrameRenderer_fields:
  "r_p (FrameRenderer lib p lyrics) = p" "r_lyrics (FrameRenderer lib p lyrics) = lyrics"
  by (simp_all add: FrameRenderer_def Let_def)

subsection \<open>The renderer\<close>

lemma example_renderer_fields:
  "r_p example_renderer = default_params" "r_lyrics example_renderer = example_track"
  "lyric_font example_renderer = DefaultFont"
  by (simp_all add: example_renderer_def FrameRenderer_def Let_def example_pil_def)

lemma render_list_distance:
  "(idx, dist_level) \<in> set (render_list curr_idx n visible_lines) \<Longrightarrow> idx = curr_idx + dist_level"
  by (auto simp: render_list_def split: if_splits)

lemma rendered_lines_distance:
  "(idx, dist_level) \<in> set (rendered_lines R t) \<Longrightarrow>
   dist_level = idx - get_current_line_index (r_lyrics R) t \<and> 0 \<le> idx \<and>
   idx < int (length (r_lyrics R))"
  by (auto simp: rendered_lines_def dest: render_list_distance)

lemma rendered_lines_example: "rendered_lines example_renderer 2 = [(1, 0), (0, - 1), (2, 1)]"
  by (simp add: rendered_lines_def example_renderer_fields render_list_def
      get_current_line_index_def example_track_def default_params_def upto.simps)

lemma render_line_call:
  assumes "0 \<le> idx" and "idx < int (length (r_lyrics R))"
  shows "render_line lib R img (idx, dist_level) =
     (case draw_text_with_effects lib (lyric_text (r_lyrics R ! nat idx)) (header_x (r_p R))
             (lp_y_pos (line_parameters (r_p R) dist_level)) (lyric_font R)
             (p_font_color (r_p R)) (lp_alpha (line_parameters (r_p R) dist_level))
             (lp_scale (line_parameters (r_p R) dist_level))
             (lp_blur (line_parameters (r_p R) dist_level))
             (p_align (r_p R)) (p_shadow (r_p R)) (p_stroke (r_p R)) of
        Inl e \<Rightarrow> Inl e
      | Inr (res_img, dx, dy) \<Rightarrow>
          (case res_img of
             Some layer \<Rightarrow> Inr (paste lib img layer (dx, dy))
           | None \<Rightarrow> Inr img))"
  using assms by (simp add: render_line_def Let_def)

lemma line_parameters_fields:
  "lp_scale (line_parameters p dist_level) =
     max (fl (1 / 10)) (fsub 1 (fmul (p_scale_decay p) (to_float \<bar>dist_level\<bar>)))"
  "lp_alpha (line_parameters p dist_level) =
     (if dist_level = 0 then 255
      else max 0 (fsub 255 (fmul (fmul (p_fade_decay p) (to_float \<bar>dist_level\<bar>)) 50)))"
  "lp_blur (line_parameters p dist_level) =
     (if dist_level = 0 then 0
      else fadd (p_blur_base p) (fmul (p_blur_inc p) (to_float \<bar>dist_level\<bar>)))"
  "lp_y_pos (line_parameters p dist_level) =
     center_y p + dist_level * (p_font_size p + p_line_spacing p)"
  by (simp_all add: line_parameters_def Let_def)

lemma draw_text_with_effects_position:
  assumes "draw_text_with_effects lib text x y font color alpha scale blur_radius align sh st =
           Inr (Some layer, dx, dy)"
  shows "dy = y - int (im_height layer) div 2"
proof -
  have a: "\<not> alpha \<le> 5"
    using assms by (auto simp: draw_text_with_effects_def)
  obtain b0 b1 b2 b3 where b: "textbbox lib text font = (b0, b1, b2, b3)"
    by (cases "textbbox lib text font") auto
  obtain cr cg cb where c: "color = (cr, cg, cb)" by (cases color) auto
  show ?thesis
    using assms a b c
    by (auto simp add: draw_text_with_effects_def Let_def split: if_splits sum.splits prod.splits)
qed

lemma default_line_values:
  "lp_scale (line_parameters default_params (- 1)) = 8106479329266893 / 9007199254740992"
  "lp_alpha (line_parameters default_params (- 1)) = 230"
  "lp_blur (line_parameters default_params (- 1)) = 2"
  "lp_y_pos (line_parameters default_params (- 1)) = 515"
  "lp_scale (line_parameters default_params 6) = 3602879701896396 / 9007199254740992"
  by code_simp+

text \<open>
  C1. Every line that is drawn stands at the distance \<open>dist_level\<close> of its index from the
  active index. With \<open>d\<close> the absolute value of that distance, the renderer computes the
  scale \<open>max(0.1, 1 - scale_decay * d)\<close>, the alpha \<open>max(0, 255 - fade_decay * d * 50)\<close>,
  which is 255 when \<open>d = 0\<close>, and the blur radius \<open>blur_base + blur_inc * d\<close>, which is 0
  when \<open>d = 0\<close>, each operation in the arithmetic of doubles; and these are the values with
  which the turn of the loop for the line calls \<open>draw_text_with_effects\<close>, whose layer it
  pastes on the frame.
\<close>

theorem rendered_line_visual_parameters:
  "\<forall>(idx, dist_level) \<in> set (rendered_lines R t).
     (let p = r_p R;
          d = \<bar>idx - get_current_line_index (r_lyrics R) t\<bar>;
          scale = max (fl (1 / 10)) (fsub 1 (fmul (p_scale_decay p) (to_float d)));
          alpha = (if d = 0 then 255
                   else max 0 (fsub 255 (fmul (fmul (p_fade_decay p) (to_float d)) 50)));
          blur = (if d = 0 then 0 else fadd (p_blur_base p) (fmul (p_blur_inc p) (to_float d)))
      in \<bar>dist_level\<bar> = d \<and>
         lp_scale (line_parameters p dist_level) = scale \<and>
         lp_alpha (line_parameters p dist_level) = alpha \<and>
         lp_blur (line_parameters p dist_level) = blur \<and>
         render_line lib R img (idx, dist_level) =
           (case draw_text_with_effects lib (lyric_text (r_lyrics R ! nat idx)) (header_x p)
                   (lp_y_pos (line_parameters p dist_level)) (lyric_font R) (p_font_color p)
                   alpha scale blur (p_align p) (p_shadow p) (p_stroke p) of
              Inl e \<Rightarrow> Inl e
            | Inr (res_img, dx, dy) \<Rightarrow>
                (case res_img of
                   Some layer \<Rightarrow> Inr (paste lib img layer (dx, dy))
                 | None \<Rightarrow> Inr img)))"
proof (intro ballI, clarify)
  fix idx dist_level
  assume m: "(idx, dist_level) \<in> set (rendered_lines R t)"
  then have d: "dist_level = idx - get_current_line_index (r_lyrics R) t"
    and b: "0 \<le> idx" "idx < int (length (r_lyrics R))"
    using rendered_lines_distance by blast+
  have z: "(\<bar>dist_level\<bar> = 0) = (dist_level = 0)" by simp
  show "let p = r_p R;
          d = \<bar>idx - get_current_line_index (r_lyrics R) t\<bar>;
          scale = max (fl (1 / 10)) (fsub 1 (fmul (p_scale_decay p) (to_float d)));
          alpha = (if d = 0 then 255
                   else max 0 (fsub 255 (fmul (fmul (p_fade_decay p) (to_float d)) 50)));
          blur = (if d = 0 then 0 else fadd (p_blur_base p) (fmul (p_blur_inc p) (to_float d)))
      in \<bar>dist_level\<bar> = d \<and>
         lp_scale (line_parameters p dist_level) = scale \<and>
         lp_alpha (line_parameters p dist_level) = alpha \<and>
         lp_blur (line_parameters p dist_level) = blur \<and>
         render_line lib R img (idx, dist_level) =
           (case draw_text_with_effects lib (lyric_text (r_lyrics R ! nat idx)) (header_x p)
                   (lp_y_pos (line_parameters p dist_level)) (lyric_font R) (p_font_color p)
                   alpha scale blur (p_align p) (p_shadow p) (p_stroke p) of
              Inl e \<Rightarrow> Inl e
            | Inr (res_img, dx, dy) \<Rightarrow>
                (case res_img of
                   Some layer \<Rightarrow> Inr (paste lib img layer (dx, dy))
                 | None \<Rightarrow> Inr img))"
    unfolding Let_def d [symmetric] z
    using render_line_call [OF b, of lib img dist_level]
    by (simp only: line_parameters_fields)
qed


theorem rendered_line_visual_parameters_witness:
  "(0, - 1) \<in> set (rendered_lines example_renderer 2) \<and>
   get_current_line_index (r_lyrics example_renderer) 2 = 1 \<and>
   lp_scale (line_parameters (r_p example_renderer) (- 1)) =
     max (fl (1 / 10)) (fsub 1 (fmul (p_scale_decay (r_p example_renderer)) (to_float 1))) \<and>
   lp_scale (line_parameters (r_p example_renderer) (- 1)) = 8106479329266893 / 9007199254740992 \<and>
   lp_alpha (line_parameters (r_p example_renderer) (- 1)) = 230 \<and>
   lp_blur (line_parameters (r_p example_renderer) (- 1)) = 2 \<and>
   render_line example_pil example_renderer one_pixel (0, - 1) =
     (case draw_text_with_effects example_pil ''a'' 960 515 DefaultFont (255, 255, 255)
             230 (max (fl (1 / 10)) (fsub 1 (fmul (p_scale_decay default_params) (to_float 1))))
             2 ''center'' (p_shadow default_params) (p_stroke default_params) of
        Inl e \<Rightarrow> Inl e
      | Inr (res_img, dx, dy) \<Rightarrow>
          (case res_img of
             Some layer \<Rightarrow> Inr (paste example_pil one_pixel layer (dx, dy))
           | None \<Rightarrow> Inr one_pixel))"
proof -
  have m: "(0, - 1) \<in> set (rendered_lines example_renderer 2)"
    by (simp add: rendered_lines_example)
  have c: "get_current_line_index (r_lyrics example_renderer) 2 = 1"
    by (simp add: example_renderer_fields get_current_line_index_def example_track_def)
  have h: "header_x default_params = 960" "p_font_color default_params = (255, 255, 255)"
    "p_align default_params = ''center''" "lyric_text (example_track ! 0) = ''a''"
    by (simp_all add: header_x_def default_params_def example_track_def)
  have "let p = r_p example_renderer;
          d = \<bar>0 - get_current_line_index (r_lyrics example_renderer) 2\<bar>;
          scale = max (fl (1 / 10)) (fsub 1 (fmul (p_scale_decay p) (to_float d)));
          alpha = (if d = 0 then 255
                   else max 0 (fsub 255 (fmul (fmul (p_fade_decay p) (to_float d)) 50)));
          blur = (if d = 0 then 0 else fadd (p_blur_base p) (fmul (p_blur_inc p) (to_float d)))
      in \<bar>- 1 :: int\<bar> = d \<and>
         lp_scale (line_parameters p (- 1)) = scale \<and>
         lp_alpha (line_parameters p (- 1)) = alpha \<and>
         lp_blur (line_parameters p (- 1)) = blur \<and>
         render_line example_pil example_renderer one_pixel (0, - 1) =
           (case draw_text_with_effects example_pil
                   (lyric_text (r_lyrics example_renderer ! nat 0)) (header_x p)
                   (lp_y_pos (line_parameters p (- 1))) (lyric_font example_renderer)
                   (p_font_color p) alpha scale blur (p_align p) (p_shadow p) (p_stroke p) of
              Inl e \<Rightarrow> Inl e
            | Inr (res_img, dx, dy) \<Rightarrow>
                (case res_img of
                   Some layer \<Rightarrow> Inr (paste example_pil one_pixel layer (dx, dy))
                 | None \<Rightarrow> Inr one_pixel))"
    using rendered_line_visual_parameters [of example_renderer 2 example_pil one_pixel] m
    by fastforce
  then show ?thesis
    unfolding Let_def c example_renderer_fields
    using m c [unfolded example_renderer_fields] default_line_values h
    by (simp add: example_renderer_fields)
qed

text \<open>
  C3 as stated fails: for the line above the active one the distance is \<open>-1\<close>, so that
  \<open>sign(distance) * distance\<close> is \<open>1\<close> and the stated position lies below the centre, at
  795 for the default parameters, while the renderer puts the line above it, at 515.
\<close>

theorem rendered_line_position_counterexample:
  "(0, - 1) \<in> set (rendered_lines example_renderer 2) \<and>
   lp_y_pos (line_parameters (r_p example_renderer) (- 1)) \<noteq>
     center_y (r_p example_renderer) + sgn (- 1) * (- 1) *
       (p_font_size (r_p example_renderer) + p_line_spacing (r_p example_renderer)) \<and>
   lp_y_pos (line_parameters (r_p example_renderer) (- 1)) = 515 \<and>
   center_y (r_p example_renderer) + sgn (- 1) * (- 1) *
     (p_font_size (r_p example_renderer) + p_line_spacing (r_p example_renderer)) = 795"
  by (simp add: rendered_lines_example example_renderer_fields line_parameters_fields center_y_def
      default_params_def Let_def)

text \<open>
  C3, amended. Every line that is drawn, at the signed distance \<open>distance\<close> of its index from
  the active index, has the vertical position
  \<open>center_y + distance * (font_size + line_spacing)\<close>, where \<open>center_y\<close> is the midpoint of
  the region between the header, which ends at \<open>40 + 4 * font_size\<close>, and the bottom margin
  of 50 pixels. This is the position with which the turn of the loop for the line calls
  \<open>draw_text_with_effects\<close>, and a layer that comes back is pasted with its vertical middle
  there.
\<close>

theorem rendered_line_position:
  "\<forall>(idx, dist_level) \<in> set (rendered_lines R t).
     (let p = r_p R;
          distance = idx - get_current_line_index (r_lyrics R) t;
          top = 40 + p_font_size p * 4;
          bottom = p_height p - 50;
          centre = top + (bottom - top) div 2;
          y = centre + distance * (p_font_size p + p_line_spacing p);
          lp = line_parameters p dist_level
      in dist_level = distance \<and> center_y p = centre \<and> lp_y_pos lp = y \<and>
         render_line lib R img (idx, dist_level) =
           (case draw_text_with_effects lib (lyric_text (r_lyrics R ! nat idx)) (header_x p) y
                   (lyric_font R) (p_font_color p) (lp_alpha lp) (lp_scale lp) (lp_blur lp)
                   (p_align p) (p_shadow p) (p_stroke p) of
              Inl e \<Rightarrow> Inl e
            | Inr (res_img, dx, dy) \<Rightarrow>
                (case res_img of
                   Some layer \<Rightarrow> Inr (paste lib img layer (dx, dy))
                 | None \<Rightarrow> Inr img)) \<and>
         (\<forall>layer dx dy.
            draw_text_with_effects lib (lyric_text (r_lyrics R ! nat idx)) (header_x p) y
              (lyric_font R) (p_font_color p) (lp_alpha lp) (lp_scale lp) (lp_blur lp)
              (p_align p) (p_shadow p) (p_stroke p) = Inr (Some layer, dx, dy) \<longrightarrow>
            render_line lib R img (idx, dist_level) =
              Inr (paste lib img layer (dx, y - int (im_height layer) div 2))))"
proof (intro ballI, clarify)
  fix idx dist_level
  assume m: "(idx, dist_level) \<in> set (rendered_lines R t)"
  then have d: "dist_level = idx - get_current_line_index (r_lyrics R) t"
    and b: "0 \<le> idx" "idx < int (length (r_lyrics R))"
    using rendered_lines_distance by blast+
  define p where "p = r_p R"
  define lp where "lp = line_parameters p dist_level"
  define y where "y = 40 + p_font_size p * 4 +
      (p_height p - 50 - (40 + p_font_size p * 4)) div 2 +
      dist_level * (p_font_size p + p_line_spacing p)"
  have c: "center_y p = 40 + p_font_size p * 4 +
      (p_height p - 50 - (40 + p_font_size p * 4)) div 2"
    by (simp add: center_y_def Let_def)
  have yy: "lp_y_pos lp = y"
    unfolding lp_def y_def line_parameters_fields c by simp
  have call: "render_line lib R img (idx, dist_level) =
           (case draw_text_with_effects lib (lyric_text (r_lyrics R ! nat idx)) (header_x p) y
                   (lyric_font R) (p_font_color p) (lp_alpha lp) (lp_scale lp) (lp_blur lp)
                   (p_align p) (p_shadow p) (p_stroke p) of
              Inl e \<Rightarrow> Inl e
            | Inr (res_img, dx, dy) \<Rightarrow>
                (case res_img of
                   Some layer \<Rightarrow> Inr (paste lib img layer (dx, dy))
                 | None \<Rightarrow> Inr img))"
    using render_line_call [OF b, of lib img dist_level] unfolding p_def [symmetric] lp_def [symmetric] yy .
  have pos: "render_line lib R img (idx, dist_level) =
              Inr (paste lib img layer (dx, y - int (im_height layer) div 2))"
    if "draw_text_with_effects lib (lyric_text (r_lyrics R ! nat idx)) (header_x p) y
              (lyric_font R) (p_font_color p) (lp_alpha lp) (lp_scale lp) (lp_blur lp)
              (p_align p) (p_shadow p) (p_stroke p) = Inr (Some layer, dx, dy)"
    for layer dx dy
    using that draw_text_with_effects_position [OF that] unfolding call by simp
  show "let p = r_p R;
          distance = idx - get_current_line_index (r_lyrics R) t;
          top = 40 + p_font_size p * 4;
          bottom = p_height p - 50;
          centre = top + (bottom - top) div 2;
          y = centre + distance * (p_font_size p + p_line_spacing p);
          lp = line_parameters p dist_level
      in dist_level = distance \<and> center_y p = centre \<and> lp_y_pos lp = y \<and>
         render_line lib R img (idx, dist_level) =
           (case draw_text_with_effects lib (lyric_text (r_lyrics R ! nat idx)) (header_x p) y
                   (lyric_font R) (p_font_color p) (lp_alpha lp) (lp_scale lp) (lp_blur lp)
                   (p_align p) (p_shadow p) (p_stroke p) of
              Inl e \<Rightarrow> Inl e
            | Inr (res_img, dx, dy) \<Rightarrow>
                (case res_img of
                   Some layer \<Rightarrow> Inr (paste lib img layer (dx, dy))
                 | None \<Rightarrow> Inr img)) \<and>
         (\<forall>layer dx dy.
            draw_text_with_effects lib (lyric_text (r_lyrics R ! nat idx)) (header_x p) y
              (lyric_font R) (p_font_color p) (lp_alpha lp) (lp_scale lp) (lp_blur lp)
              (p_align p) (p_shadow p) (p_stroke p) = Inr (Some layer, dx, dy) \<longrightarrow>
            render_line lib R img (idx, dist_level) =
              Inr (paste lib img layer (dx, y - int (im_height layer) div 2)))"
    unfolding Let_def d [symmetric] p_def [symmetric] lp_def [symmetric] y_def [symmetric]
    using c yy call pos by (simp add: y_def)
qed

theorem rendered_line_position_witness:
  "(0, - 1) \<in> set (rendered_lines example_renderer 2) \<and>
   - 1 = 0 - get_current_line_index (r_lyrics example_renderer) 2 \<and>
   center_y (r_p example_renderer) = 655 \<and>
   lp_y_pos (line_parameters (r_p example_renderer) (- 1)) = 655 + (- 1) * (60 + 80) \<and>
   render_line example_pil example_renderer one_pixel (0, - 1) =
     (case draw_text_with_effects example_pil ''a'' 960 515 DefaultFont (255, 255, 255)
             (lp_alpha (line_parameters default_params (- 1)))
             (lp_scale (line_parameters default_params (- 1)))
             (lp_blur (line_parameters default_params (- 1)))
             ''center'' (p_shadow default_params) (p_stroke default_params) of
        Inl e \<Rightarrow> Inl e
      | Inr (res_img, dx, dy) \<Rightarrow>
          (case res_img of
             Some layer \<Rightarrow> Inr (paste example_pil one_pixel layer (dx, dy))
           | None \<Rightarrow> Inr one_pixel))"
proof -
  have m: "(0, - 1) \<in> set (rendered_lines example_renderer 2)"
    by (simp add: rendered_lines_example)
  have c: "get_current_line_index example_track 2 = 1"
    by (simp add: get_current_line_index_def example_track_def)
  have h: "header_x default_params = 960" "p_font_color default_params = (255, 255, 255)"
    "p_align default_params = ''center''" "lyric_text (example_track ! 0) = ''a''"
    "p_font_size default_params = 60" "p_line_spacing default_params = 80"
    "p_height default_params = 1080"
    by (simp_all add: header_x_def default_params_def example_track_def)
  have "case (0, - 1) of (idx, dist_level) \<Rightarrow>
     (let p = r_p example_renderer;
          distance = idx - get_current_line_index (r_lyrics example_renderer) 2;
          top = 40 + p_font_size p * 4;
          bottom = p_height p - 50;
          centre = top + (bottom - top) div 2;
          y = centre + distance * (p_font_size p + p_line_spacing p);
          lp = line_parameters p dist_level
      in dist_level = distance \<and> center_y p = centre \<and> lp_y_pos lp = y \<and>
         render_line example_pil example_renderer one_pixel (idx, dist_level) =
           (case draw_text_with_effects example_pil
                   (lyric_text (r_lyrics example_renderer ! nat idx)) (header_x p) y
                   (lyric_font example_renderer) (p_font_color p) (lp_alpha lp) (lp_scale lp)
                   (lp_blur lp) (p_align p) (p_shadow p) (p_stroke p) of
              Inl e \<Rightarrow> Inl e
            | Inr (res_img, dx, dy) \<Rightarrow>
                (case res_img of
                   Some layer \<Rightarrow> Inr (paste example_pil one_pixel layer (dx, dy))
                 | None \<Rightarrow> Inr one_pixel)) \<and>
         (\<forall>layer dx dy.
            draw_text_with_effects example_pil
              (lyric_text (r_lyrics example_renderer ! nat idx)) (header_x p) y
              (lyric_font example_renderer) (p_font_color p) (lp_alpha lp) (lp_scale lp)
              (lp_blur lp) (p_align p) (p_shadow p) (p_stroke p) = Inr (Some layer, dx, dy) \<longrightarrow>
            render_line example_pil example_renderer one_pixel (idx, dist_level) =
              Inr (paste example_pil one_pixel layer (dx, y - int (im_height layer) div 2))))"
    using rendered_line_position [of example_renderer 2 example_pil one_pixel] m by (rule bspec)
  then show ?thesis
    using m c h by (simp add: Let_def example_renderer_fields)
qed

subsection \<open>Lines that are too faint\<close>

lemma render_loop_faded:
  "lp_alpha (line_parameters (r_p R) (snd entry)) \<le> 5 \<Longrightarrow> render_line lib R img entry = Inr img"
  by (cases entry) (simp add: render_line_def Let_def draw_text_with_effects_faded)

text \<open>
  C7. For a line whose computed alpha is at most 5, \<open>draw_text_with_effects\<close> returns no
  layer, and the turn of the loop for that line returns the frame it was given: nothing is
  pasted, so every pixel of the frame, those at the position of the line among them, is what
  it was before the line, transparent where nothing else was drawn.
\<close>

theorem faded_line_leaves_frame:
  assumes "lp_alpha (line_parameters (r_p R) dist_level) \<le> 5"
  shows "draw_text_with_effects lib text x y font color
           (lp_alpha (line_parameters (r_p R) dist_level)) scale blur_radius align sh st =
           Inr (None, 0, 0) \<and>
         render_line lib R img (idx, dist_level) = Inr img \<and>
         render_loop lib R ((idx, dist_level) # rest) img = render_loop lib R rest img"
  using assms render_loop_faded [of R "(idx, dist_level)" lib img]
  by (simp add: draw_text_with_effects_faded)

theorem faded_line_leaves_frame_witness:
  "lp_alpha (line_parameters (r_p (FrameRenderer example_pil faded_params example_track)) 5) = 5 \<and>
   render_line example_pil (FrameRenderer example_pil faded_params example_track) one_pixel (2, 5)
     = Inr one_pixel \<and>
   pixel_at one_pixel (0, 0) = transparent"
proof -
  have "lp_alpha (line_parameters faded_params 5) = 5" by code_simp
  then have a:
    "lp_alpha (line_parameters (r_p (FrameRenderer example_pil faded_params example_track)) 5) = 5"
    by (simp add: FrameRenderer_fields)
  have p: "pixel_at one_pixel (0, 0) = transparent"
    by (simp add: pixel_at_def one_pixel_def)
  show ?thesis
    using faded_line_leaves_frame [of "FrameRenderer example_pil faded_params example_track" 5
        example_pil "''c''" 0 0 DefaultFont "(255, 255, 255)" 1 0 "''center''"
        "p_shadow faded_params" "p_stroke faded_params" one_pixel 2 "[]"] a p
    by simp
qed

text \<open>
  The loop of \<open>render\<close> draws exactly the entries of \<open>rendered_lines\<close>, and the frame it
  composes is the one it would compose were the lines of alpha at most 5 not in the list.
\<close>

lemma render_loop_filter:
  assumes "\<And>entry img. entry \<in> set xs \<Longrightarrow> \<not> keep entry \<Longrightarrow> render_line lib R img entry = Inr img"
  shows "render_loop lib R xs img = render_loop lib R (filter keep xs) img"
  using assms
proof (induction xs arbitrary: img)
  case Nil
  show ?case by simp
next
  case (Cons entry rest)
  have ih: "render_loop lib R rest img' = render_loop lib R (filter keep rest) img'" for img'
    using Cons.IH Cons.prems by simp
  show ?case
  proof (cases "keep entry")
    case True
    then show ?thesis by (simp add: ih split: sum.splits)
  next
    case False
    then have "render_line lib R img entry = Inr img" using Cons.prems by simp
    then show ?thesis using False by (simp add: ih)
  qed
qed

lemma render_draws_rendered_lines:
  "render_loop lib R
     (render_list (get_current_line_index (r_lyrics R) t) (length (r_lyrics R))
        (p_visible_lines (r_p R))) img =
   render_loop lib R (rendered_lines R t) img"
  unfolding rendered_lines_def
  by (rule render_loop_filter) (auto simp: render_line_def)

lemma render_loop_without_faded:
  "render_loop lib R xs img =
   render_loop lib R
     (filter (\<lambda>entry. \<not> lp_alpha (line_parameters (r_p R) (snd entry)) \<le> 5) xs) img"
  by (rule render_loop_filter) (simp add: render_loop_faded)

subsection \<open>The export thread\<close>

lemma frames_written_Nil: "frames_written [] = []"
  by (simp add: frames_written_def)

lemma frames_written_Cons:
  "frames_written (ev # evs) =
     (case ev of StdinWrite b \<Rightarrow> [b] | _ \<Rightarrow> []) @ frames_written evs"
  by (simp add: frames_written_def)

lemma frames_written_append: "frames_written (xs @ ys) = frames_written xs @ frames_written ys"
  by (simp add: frames_written_def)

lemma frames_written_close_and_wait:
  "frames_written after = [] \<Longrightarrow> frames_written (close_and_wait e after) = []"
  by (simp add: close_and_wait_def frames_written_Cons frames_written_Nil split: option.splits)

lemma frames_written_step:
  "frames_written (StdinWrite b # (if c then [ProgressSignal n] else []) @ evs) =
     b # frames_written evs"
  by (simp add: frames_written_Cons frames_written_Nil)

lemma is_running_stop: "\<not> is_running (stop th)"
  by (simp add: stop_def)

lemma export_loop_frames_bound:
  "length (frames_written (export_loop e lib R total_frames xs th)) \<le>
   length (takeWhile (\<lambda>i. \<not> stop_before e i) xs)"
proof (induction xs arbitrary: th)
  case Nil
  show ?case
    by (simp add: frames_written_close_and_wait frames_written_Cons frames_written_Nil)
next
  case (Cons i rest)
  show ?case
  proof (cases "stop_before e i")
    case True
    then show ?thesis
      by (simp add: is_running_stop frames_written_close_and_wait frames_written_Nil)
  next
    case False
    show ?thesis
    proof (cases "is_running th")
      case r: False
      then show ?thesis
        using False by (simp add: frames_written_close_and_wait frames_written_Nil)
    next
      case r: True
      show ?thesis
      proof (cases "render lib R (of_nat i / 30)")
        case (Inl err)
        then show ?thesis using False r by (simp add: frames_written_Cons frames_written_Nil)
      next
        case (Inr img)
        show ?thesis
        proof (cases "write_error e i")
          case (Some msg)
          then show ?thesis
            using False r Inr by (simp add: frames_written_Cons frames_written_Nil)
        next
          case None
          then show ?thesis
            using False r Inr Cons.IH [of th]
            by (simp add: frames_written_step del: export_loop.simps(1))
        qed
      qed
    qed
  qed
qed

lemma takeWhile_upt_bound:
  assumes "\<not> P j"
  shows "length (takeWhile P [0..<n]) \<le> j"
proof (rule ccontr)
  assume "\<not> length (takeWhile P [0..<n]) \<le> j"
  then have j: "j < length (takeWhile P [0..<n])" by simp
  have "length (takeWhile P [0..<n]) \<le> length [0..<n]" by (rule length_takeWhile_le)
  then have jn: "j < n" using j by simp
  have "takeWhile P [0..<n] ! j = [0..<n] ! j" using j by (rule takeWhile_nth)
  then have "takeWhile P [0..<n] ! j = j" using jn by simp
  moreover have "takeWhile P [0..<n] ! j \<in> set (takeWhile P [0..<n])" using j by simp
  ultimately have "P j" using set_takeWhileD by metis
  with assms show False by simp
qed

lemma frames_written_run:
  "popen_error e = None \<Longrightarrow>
   frames_written (run e lib th) =
     frames_written (export_loop e lib (FrameRenderer lib (et_params th) (et_lyrics th))
       (num_int (num_mul (p_duration (et_params th)) (PyInt 30)))
       [0..<nat (num_int (num_mul (p_duration (et_params th)) (PyInt 30)))] th)"
  by (simp add: run_def Let_def frames_written_Cons)

lemma frames_written_run_failed:
  "popen_error e = Some msg \<Longrightarrow> frames_written (run e lib th) = []"
  by (simp add: run_def Let_def frames_written_Cons frames_written_Nil)

lemma run_frames_bound:
  assumes "stop_before e j"
  shows "length (frames_written (run e lib th)) \<le> j"
proof (cases "popen_error e")
  case None
  have "length (frames_written (run e lib th)) \<le>
        length (takeWhile (\<lambda>i. \<not> stop_before e i)
          [0..<nat (num_int (num_mul (p_duration (et_params th)) (PyInt 30)))])"
    unfolding frames_written_run [OF None] by (rule export_loop_frames_bound)
  also have "\<dots> \<le> j" using assms by (intro takeWhile_upt_bound) simp
  finally show ?thesis .
next
  case (Some msg)
  then show ?thesis by (simp add: frames_written_run_failed)
qed

lemma export_loop_all_frames:
  assumes "is_running th" and "\<forall>i\<in>set xs. \<not> stop_before e i"
    and "\<forall>i\<in>set xs. write_error e i = None"
    and "boxes_not_inverted lib" and "0 \<le> p_width (r_p R)" and "0 \<le> p_height (r_p R)"
  shows "list_all2
           (\<lambda>i b. \<exists>img. render lib R (of_nat i / 30) = Inr img \<and> b = tobytes img \<and>
                     length b = nat (p_width (r_p R)) * nat (p_height (r_p R)) * 4)
           xs (frames_written (export_loop e lib R total_frames xs th))"
  using assms(1-3)
proof (induction xs)
  case Nil
  show ?case
    by (simp add: frames_written_close_and_wait frames_written_Cons frames_written_Nil)
next
  case (Cons i rest)
  obtain img where img: "render lib R (of_nat i / 30) = Inr img"
    "length (im_pixels img) = nat (p_width (r_p R)) * nat (p_height (r_p R))"
    using render_ok [OF assms(4-6)] by blast
  have step: "frames_written (export_loop e lib R total_frames (i # rest) th) =
      tobytes img # frames_written (export_loop e lib R total_frames rest th)"
    using Cons.prems img(1) by (simp add: frames_written_step del: export_loop.simps(1))
  have "list_all2
           (\<lambda>i b. \<exists>img. render lib R (of_nat i / 30) = Inr img \<and> b = tobytes img \<and>
                     length b = nat (p_width (r_p R)) * nat (p_height (r_p R)) * 4)
           rest (frames_written (export_loop e lib R total_frames rest th))"
    using Cons.IH Cons.prems by simp
  then show ?case unfolding step using img by (simp add: length_tobytes)
qed

lemma is_running_ExportThread: "is_running (ExportThread p lyrics out)"
  by (simp add: ExportThread_def)

lemma ExportThread_fields:
  "et_params (ExportThread p lyrics out) = p" "et_lyrics (ExportThread p lyrics out) = lyrics"
  by (simp_all add: ExportThread_def)

lemma fl_thirty: "to_float 30 = 30"
  by code_simp

lemma total_frames_examples:
  "num_int (num_mul (PyInt 60) (PyInt 30)) = 1800"
  "num_int (num_mul (PyFloat (fl (249 / 100))) (PyInt 30)) = 74"
  "num_int (num_mul (PyFloat (fl (41 / 10))) (PyInt 30)) = 122"
  "num_int (num_mul (PyFloat (fl (7 / 10))) (PyInt 30)) = 21"
  by code_simp+

lemma progress_example: "py_int (fmul (fl (870 / 1500)) 100) = 57"
  by code_simp

lemma run_all_frames:
  assumes "popen_error e = None" and "\<forall>i. \<not> stop_before e i" and "\<forall>i. write_error e i = None"
    and "boxes_not_inverted lib" and "0 \<le> p_width p" and "0 \<le> p_height p"
  shows "list_all2
           (\<lambda>i b. \<exists>img. render lib (FrameRenderer lib p lyrics) (of_nat i / 30) = Inr img \<and>
                     b = tobytes img \<and> length b = nat (p_width p) * nat (p_height p) * 4)
           [0..<nat (num_int (num_mul (p_duration p) (PyInt 30)))]
           (frames_written (run e lib (ExportThread p lyrics out)))"
  unfolding frames_written_run [OF assms(1)] ExportThread_fields
  using export_loop_all_frames [of "ExportThread p lyrics out"
      "[0..<nat (num_int (num_mul (p_duration p) (PyInt 30)))]" e lib "FrameRenderer lib p lyrics" "num_int (num_mul (p_duration p) (PyInt 30))"]
    assms is_running_ExportThread
  by (simp add: FrameRenderer_fields)

lemma run_frame_count:
  assumes "popen_error e = None" and "\<forall>i. \<not> stop_before e i" and "\<forall>i. write_error e i = None"
    and "boxes_not_inverted lib" and "0 \<le> p_width p" and "0 \<le> p_height p"
  shows "length (frames_written (run e lib (ExportThread p lyrics out))) = nat (num_int (num_mul (p_duration p) (PyInt 30)))"
  using list_all2_lengthD [OF run_all_frames [OF assms]] by simp

text \<open>
  C2, amended. An export job that is not cancelled and meets no failure (the process starts,
  no write raises, the frame has a size that is not negative and the library measures no
  inverted box) writes exactly \<^verbatim>\<open>int(duration * fps)\<close> frames, the product truncated
  towards zero: for a whole number \<open>D\<close> of seconds this is \<open>D * 30\<close>, which is
  \<open>round(D * 30)\<close> when \<open>D\<close> is not negative, and for a float \<open>x\<close> it is the truncation of
  the double \<open>x * 30\<close>. Frame \<open>i\<close> is the frame rendered at \<open>i / 30\<close>, serialized to exactly
  \<open>width * height * 4\<close> bytes.
\<close>

theorem export_writes_every_frame:
  assumes "popen_error e = None" and "\<forall>i. \<not> stop_before e i" and "\<forall>i. write_error e i = None"
    and "boxes_not_inverted lib" and "0 \<le> p_width p" and "0 \<le> p_height p"
  shows "length (frames_written (run e lib (ExportThread p lyrics out))) = nat (num_int (num_mul (p_duration p) (PyInt 30))) \<and>
         (case p_duration p of
            PyInt D \<Rightarrow>
              length (frames_written (run e lib (ExportThread p lyrics out))) = nat (D * 30) \<and>
              (0 \<le> D \<longrightarrow>
                 int (length (frames_written (run e lib (ExportThread p lyrics out)))) =
                   round (of_int D * 30 :: rat))
          | PyFloat x \<Rightarrow>
              length (frames_written (run e lib (ExportThread p lyrics out))) =
                nat (py_int (fl (x * 30)))) \<and>
         list_all2
           (\<lambda>i b. \<exists>img. render lib (FrameRenderer lib p lyrics) (of_nat i / 30) = Inr img \<and>
                     b = tobytes img \<and> length b = nat (p_width p) * nat (p_height p) * 4)
           [0..<nat (num_int (num_mul (p_duration p) (PyInt 30)))]
           (frames_written (run e lib (ExportThread p lyrics out)))"
proof -
  have n: "length (frames_written (run e lib (ExportThread p lyrics out))) = nat (num_int (num_mul (p_duration p) (PyInt 30)))"
    by (rule run_frame_count [OF assms])
  have l: "list_all2
           (\<lambda>i b. \<exists>img. render lib (FrameRenderer lib p lyrics) (of_nat i / 30) = Inr img \<and>
                     b = tobytes img \<and> length b = nat (p_width p) * nat (p_height p) * 4)
           [0..<nat (num_int (num_mul (p_duration p) (PyInt 30)))]
           (frames_written (run e lib (ExportThread p lyrics out)))"
    by (rule run_all_frames [OF assms])
  have r: "round (of_int D * 30 :: rat) = D * 30" for D
  proof -
    have "(of_int D * 30 :: rat) = of_int (D * 30)" by simp
    then show ?thesis by (simp only: round_of_int)
  qed
  have c: "case p_duration p of
            PyInt D \<Rightarrow>
              length (frames_written (run e lib (ExportThread p lyrics out))) = nat (D * 30) \<and>
              (0 \<le> D \<longrightarrow>
                 int (length (frames_written (run e lib (ExportThread p lyrics out)))) =
                   round (of_int D * 30 :: rat))
          | PyFloat x \<Rightarrow>
              length (frames_written (run e lib (ExportThread p lyrics out))) =
                nat (py_int (fl (x * 30)))"
  proof (cases "p_duration p")
    case (PyInt D)
    then show ?thesis using n r [of D] by simp
  next
    case (PyFloat x)
    then show ?thesis using n by (simp add: fl_thirty fmul_def)
  qed
  show ?thesis using n c l by blast
qed

lemma boxes_example: "boxes_not_inverted example_pil"
  by (simp add: boxes_not_inverted_def example_pil_def)

theorem export_writes_every_frame_witness:
  "popen_error ok_env = None \<and> boxes_not_inverted example_pil \<and>
   p_duration small_params = PyInt 1 \<and>
   length (frames_written (run ok_env example_pil (ExportThread small_params example_track ''out.mov''))) = 30 \<and>
   round (of_int 1 * 30 :: rat) = 30"
proof -
  have d: "p_duration small_params = PyInt 1"
    by (simp add: small_params_def default_params_def)
  have r: "round (of_int 1 * 30 :: rat) = 30" by simp
  show ?thesis
    using export_writes_every_frame [of ok_env example_pil small_params example_track "''out.mov''"]
      boxes_example d r
    by (simp add: ok_env_def small_params_def default_params_def)
qed

text \<open>
  C2 as stated fails where \<open>D * 30\<close> is not a whole number: the frame count is
  \<^verbatim>\<open>int(duration * fps)\<close>, which truncates. For the float 2.49 the product is 74.7: the
  job writes 74 frames, and \<open>round(D * 30)\<close> is 75.
\<close>

theorem export_frame_count_counterexample:
  "int (length (frames_written (run ok_env example_pil
      (ExportThread (default_params\<lparr>p_duration := PyFloat (fl (249 / 100))\<rparr>) example_track
         ''out.mov'')))) \<noteq>
     round (num_value (p_duration (default_params\<lparr>p_duration := PyFloat (fl (249 / 100))\<rparr>)) * 30) \<and>
   length (frames_written (run ok_env example_pil
      (ExportThread (default_params\<lparr>p_duration := PyFloat (fl (249 / 100))\<rparr>) example_track
         ''out.mov''))) = 74 \<and>
   round (num_value (p_duration (default_params\<lparr>p_duration := PyFloat (fl (249 / 100))\<rparr>)) * 30) = 75"
proof -
  have "length (frames_written (run ok_env example_pil
      (ExportThread (default_params\<lparr>p_duration := PyFloat (fl (249 / 100))\<rparr>) example_track
         ''out.mov''))) =
      nat (num_int (num_mul (p_duration (default_params\<lparr>p_duration := PyFloat (fl (249 / 100))\<rparr>))
        (PyInt 30)))"
    by (rule run_frame_count) (simp_all add: ok_env_def default_params_def boxes_example)
  then have n: "length (frames_written (run ok_env example_pil
      (ExportThread (default_params\<lparr>p_duration := PyFloat (fl (249 / 100))\<rparr>) example_track
         ''out.mov''))) = 74"
    by (simp add: total_frames_examples del: num_mul.simps num_int.simps)
  have "\<lfloor>fl (249 / 100) * 30 + 1 / 2\<rfloor> = 75" by code_simp
  then have r: "round (fl (249 / 100) * 30) = 75" by (simp add: round_def)
  show ?thesis using n r by simp
qed

lemma notifications_Nil: "notifications [] = []"
  by (simp add: notifications_def)

lemma notifications_step:
  "notifications (StdinWrite b # (if c then [ProgressSignal n] else []) @ evs) = notifications evs"
  by (simp add: notifications_def)

lemma close_and_wait_cancel:
  "close_error e = None \<Longrightarrow> close_and_wait e [] = [StdinClose, Wait]"
  by (simp add: close_and_wait_def)

lemma notifications_cancel: "notifications [StdinClose, Wait] = []"
  by (simp add: notifications_def)

lemma export_loop_cancelled:
  assumes "close_error e = None" and "boxes_not_inverted lib"
    and "0 \<le> p_width (r_p R)" and "0 \<le> p_height (r_p R)"
    and "sorted_wrt (<) xs" and "j \<in> set xs" and "stop_before e j"
    and "\<forall>i\<in>set xs. i < j \<longrightarrow> write_error e i = None"
  shows "notifications (export_loop e lib R total_frames xs th) = [] \<and>
         (\<exists>evs. export_loop e lib R total_frames xs th = evs @ [StdinClose, Wait])"
  using assms(5,6,8)
proof (induction xs arbitrary: th)
  case Nil
  then show ?case by simp
next
  case (Cons i rest)
  show ?case
  proof (cases "stop_before e i \<or> \<not> is_running th")
    case True
    then have "export_loop e lib R total_frames (i # rest) th = [StdinClose, Wait]"
      using assms(1) by (auto simp: is_running_stop close_and_wait_cancel)
    then show ?thesis by (simp add: notifications_cancel)
  next
    case False
    then have "i \<noteq> j" using assms(7) by auto
    then have jr: "j \<in> set rest" using Cons.prems(2) by simp
    then have ij: "i < j" using Cons.prems(1) by auto
    then have w: "write_error e i = None" using Cons.prems(3) by simp
    obtain img where img: "render lib R (of_nat i / 30) = Inr img"
      using render_ok [OF assms(2-4)] by blast
    have step: "export_loop e lib R total_frames (i # rest) th =
        StdinWrite (tobytes img) #
        (if i mod 10 = 0
         then [ProgressSignal (py_int (fmul (fl (of_nat i / of_int total_frames)) 100))]
         else []) @ export_loop e lib R total_frames rest th"
      using False w img by (simp del: export_loop.simps(1))
    have ih: "notifications (export_loop e lib R total_frames rest th) = [] \<and>
         (\<exists>evs. export_loop e lib R total_frames rest th = evs @ [StdinClose, Wait])"
      using Cons.IH [of th] Cons.prems jr by simp
    then obtain evs where evs: "export_loop e lib R total_frames rest th = evs @ [StdinClose, Wait]"
      by blast
    have n: "notifications (export_loop e lib R total_frames (i # rest) th) = []"
      unfolding step notifications_step using ih by simp
    have "export_loop e lib R total_frames (i # rest) th =
        (StdinWrite (tobytes img) #
         (if i mod 10 = 0
          then [ProgressSignal (py_int (fmul (fl (of_nat i / of_int total_frames)) 100))]
          else []) @ evs) @ [StdinClose, Wait]"
      unfolding step evs by simp
    then show ?thesis using n by blast
  qed
qed

text \<open>
  C8. When \<^verbatim>\<open>stop\<close> is called before the loop starts frame \<open>k\<close> (before the check of
  a turn \<open>j \<le> k\<close>), at most \<open>k\<close> frames are written at all. If moreover frame \<open>k\<close> is
  one of the job's frames and nothing fails up to there (the process starts, the writes of
  the frames before \<open>k\<close> and the close of the pipe do not raise, the renderer does not
  raise), the thread ends with the close of the pipe and the wait for the process, and it
  emits neither the completion nor an error signal.
\<close>

theorem cancellation_ends_export:
  assumes "stop_before e j" and "j \<le> k"
  shows "length (frames_written (run e lib th)) \<le> k \<and>
         (popen_error e = None \<and> close_error e = None \<and> (\<forall>i<k. write_error e i = None) \<and>
          boxes_not_inverted lib \<and> 0 \<le> p_width (et_params th) \<and> 0 \<le> p_height (et_params th) \<and>
          k < nat (num_int (num_mul (p_duration (et_params th)) (PyInt 30))) \<longrightarrow>
            notifications (run e lib th) = [] \<and>
            (\<exists>evs. run e lib th = evs @ [StdinClose, Wait]))"
proof (rule conjI)
  show "length (frames_written (run e lib th)) \<le> k"
    using run_frames_bound [OF assms(1), of lib th] assms(2) by simp
next
  show "popen_error e = None \<and> close_error e = None \<and> (\<forall>i<k. write_error e i = None) \<and>
          boxes_not_inverted lib \<and> 0 \<le> p_width (et_params th) \<and> 0 \<le> p_height (et_params th) \<and>
          k < nat (num_int (num_mul (p_duration (et_params th)) (PyInt 30))) \<longrightarrow>
            notifications (run e lib th) = [] \<and>
            (\<exists>evs. run e lib th = evs @ [StdinClose, Wait])"
  proof (rule impI)
  assume h: "popen_error e = None \<and> close_error e = None \<and> (\<forall>i<k. write_error e i = None) \<and>
          boxes_not_inverted lib \<and> 0 \<le> p_width (et_params th) \<and> 0 \<le> p_height (et_params th) \<and>
          k < nat (num_int (num_mul (p_duration (et_params th)) (PyInt 30)))"
  let ?R = "FrameRenderer lib (et_params th) (et_lyrics th)"
  let ?n = "num_int (num_mul (p_duration (et_params th)) (PyInt 30))"
  have loop: "notifications (export_loop e lib ?R ?n [0..<nat ?n] th) = [] \<and>
         (\<exists>evs. export_loop e lib ?R ?n [0..<nat ?n] th = evs @ [StdinClose, Wait])"
  proof (rule export_loop_cancelled [where j = j])
    show "close_error e = None" using h by simp
    show "boxes_not_inverted lib" using h by simp
    show "0 \<le> p_width (r_p ?R)" using h by (simp add: FrameRenderer_fields)
    show "0 \<le> p_height (r_p ?R)" using h by (simp add: FrameRenderer_fields)
    show "sorted_wrt (<) [0..<nat ?n]" by (rule sorted_wrt_upt)
    show "j \<in> set [0..<nat ?n]" using h assms(2) by simp
    show "stop_before e j" by (rule assms(1))
    show "\<forall>i\<in>set [0..<nat ?n]. i < j \<longrightarrow> write_error e i = None" using h assms(2) by simp
  qed
  then obtain evs where evs: "export_loop e lib ?R ?n [0..<nat ?n] th = evs @ [StdinClose, Wait]"
    by blast
  have r: "run e lib th =
      Popen (p_width (et_params th)) (p_height (et_params th)) (p_bitrate (et_params th))
        (et_output_path th) # export_loop e lib ?R ?n [0..<nat ?n] th"
    using h by (simp add: run_def Let_def)
  have "notifications (run e lib th) = []"
    unfolding r using loop by (simp add: notifications_def)
  moreover have "run e lib th =
      (Popen (p_width (et_params th)) (p_height (et_params th)) (p_bitrate (et_params th))
        (et_output_path th) # evs) @ [StdinClose, Wait]"
    unfolding r evs by simp
  ultimately show "notifications (run e lib th) = [] \<and>
            (\<exists>evs. run e lib th = evs @ [StdinClose, Wait])"
    by blast
  qed
qed

theorem cancellation_ends_export_witness:
  "stop_before cancel_env 2 \<and> (2::nat) \<le> 2 \<and>
   2 < nat (num_int (num_mul (p_duration (et_params
          (ExportThread small_params example_track ''out.mov''))) (PyInt 30))) \<and>
   length (frames_written (run cancel_env example_pil
      (ExportThread small_params example_track ''out.mov''))) \<le> 2 \<and>
   notifications (run cancel_env example_pil
      (ExportThread small_params example_track ''out.mov'')) = [] \<and>
   (\<exists>evs. run cancel_env example_pil (ExportThread small_params example_track ''out.mov'') =
      evs @ [StdinClose, Wait])"
proof -
  have s: "stop_before cancel_env 2" by (simp add: cancel_env_def)
  have n: "num_int (num_mul (p_duration (et_params
      (ExportThread small_params example_track ''out.mov''))) (PyInt 30)) = 30"
    by (simp add: ExportThread_fields small_params_def default_params_def)
  show ?thesis
    using cancellation_ends_export [OF s, of 2 example_pil
        "ExportThread small_params example_track ''out.mov''"] s n boxes_example
    by (simp add: cancel_env_def ExportThread_fields small_params_def default_params_def)
qed

end
